theory Spec2Isabelle
  imports Main "HOL-Library.Sublist"
begin

section \<open>JavaScript values\<close>

text \<open>
  The checkout extension (\<^verbatim>\<open>extensions/checkout-ui/src/Checkout.jsx\<close>) is dynamically
  typed: a setting, a rich-text node or a cart line may hold any value the host delivers.
  The values are modelled by one datatype. A number is carried by its \<^verbatim>\<open>String()\<close>
  rendering (\<^verbatim>\<open>"0"\<close>, \<^verbatim>\<open>"NaN"\<close>, \<^verbatim>\<open>"-1.5"\<close>, ...), since the program only observes a number
  through \<^verbatim>\<open>typeof\<close>, its truthiness and its conversion to a string, and so is a function.
  An object is the list of its own properties; objects are plain data and do not shadow
  prototype methods. \<open>JElem tag key props children\<close> is the element
  \<^verbatim>\<open><tag key=... props>{children}</tag>\<close> that JSX builds. A string is the list of the bytes of
  its UTF-8 encoding.
\<close>

datatype jsval =
    JUndefined
  | JNull
  | JBool bool
  | JNum string
  | JStr string
  | JArr "jsval list"
  | JObj "(string \<times> jsval) list"
  | JElem string string "(string \<times> jsval) list" jsval
  | JFun string

datatype error = TypeError

fun typeof :: "jsval \<Rightarrow> string" where
  "typeof JUndefined = ''undefined''"
| "typeof JNull = ''object''"
| "typeof (JBool b) = ''boolean''"
| "typeof (JNum n) = ''number''"
| "typeof (JStr s) = ''string''"
| "typeof (JArr xs) = ''object''"
| "typeof (JObj kvs) = ''object''"
| "typeof (JElem tag key props ch) = ''object''"
| "typeof (JFun src) = ''function''"

text \<open>Truthiness: \<^verbatim>\<open>undefined\<close>, \<^verbatim>\<open>null\<close>, \<^verbatim>\<open>false\<close>, \<^verbatim>\<open>0\<close>, \<^verbatim>\<open>NaN\<close> and \<^verbatim>\<open>''\<close> are falsy.\<close>

fun truthy :: "jsval \<Rightarrow> bool" where
  "truthy JUndefined = False"
| "truthy JNull = False"
| "truthy (JBool b) = b"
| "truthy (JNum n) = (n \<noteq> ''0'' \<and> n \<noteq> ''NaN'')"
| "truthy (JStr s) = (s \<noteq> [])"
| "truthy (JArr xs) = True"
| "truthy (JObj kvs) = True"
| "truthy (JElem tag key props ch) = True"
| "truthy (JFun src) = True"

text \<open>\<^verbatim>\<open>a || b\<close>\<close>

definition orElse :: "jsval \<Rightarrow> jsval \<Rightarrow> jsval" where
  "orElse a b = (if truthy a then a else b)"

fun isArray :: "jsval \<Rightarrow> bool" where
  "isArray (JArr xs) = True"
| "isArray _ = False"

text \<open>
  Property read \<^verbatim>\<open>v.k\<close> on a value that is not \<^verbatim>\<open>null\<close> or \<^verbatim>\<open>undefined\<close>. The program
  reads only the names \<^verbatim>\<open>type\<close>, \<^verbatim>\<open>value\<close>, \<^verbatim>\<open>text\<close>, \<^verbatim>\<open>url\<close>, \<^verbatim>\<open>children\<close>, \<^verbatim>\<open>merchandise\<close>,
  \<^verbatim>\<open>variant\<close> and \<^verbatim>\<open>id\<close>, none of which a primitive, an array, a function or the prototype
  of an object has. Every plain read in
  the source is behind a guard that excludes \<^verbatim>\<open>null\<close> and \<^verbatim>\<open>undefined\<close>; the reads that
  are not use \<^verbatim>\<open>?.\<close>, which is \<open>optGet\<close>.
\<close>

fun get :: "jsval \<Rightarrow> string \<Rightarrow> jsval" where
  "get (JObj kvs) k = (case map_of kvs k of Some v \<Rightarrow> v | None \<Rightarrow> JUndefined)"
| "get (JElem tag key props ch) k =
     (if k = ''type'' then JStr tag
      else if k = ''key'' then JStr key
      else if k = ''props'' then JObj (props @ [(''children'', ch)])
      else JUndefined)"
| "get _ k = JUndefined"

text \<open>\<^verbatim>\<open>v?.k\<close>\<close>

definition optGet :: "jsval \<Rightarrow> string \<Rightarrow> jsval" where
  "optGet v k = (if v = JUndefined \<or> v = JNull then JUndefined else get v k)"

text \<open>\<^verbatim>\<open>strs.join(sep)\<close> on strings.\<close>

fun joinStrings :: "string \<Rightarrow> string list \<Rightarrow> string" where
  "joinStrings sep [] = []"
| "joinStrings sep [s] = s"
| "joinStrings sep (s # t # ts) = s @ sep @ joinStrings sep (t # ts)"

text \<open>
  \<^verbatim>\<open>String(v)\<close>. An array is its elements joined by commas, where \<^verbatim>\<open>null\<close> and
  \<^verbatim>\<open>undefined\<close> elements give the empty string.
\<close>

fun toString :: "jsval \<Rightarrow> string" where
  "toString JUndefined = ''undefined''"
| "toString JNull = ''null''"
| "toString (JBool b) = (if b then ''true'' else ''false'')"
| "toString (JNum n) = n"
| "toString (JStr s) = s"
| "toString (JArr xs) =
     joinStrings '','' (map (\<lambda>x. if x = JUndefined \<or> x = JNull then [] else toString x) xs)"
| "toString (JObj kvs) = ''[object Object]''"
| "toString (JElem tag key props ch) = ''[object Object]''"
| "toString (JFun src) = src"

text \<open>\<^verbatim>\<open>xs.join(sep)\<close>\<close>

definition join :: "string \<Rightarrow> jsval list \<Rightarrow> string" where
  "join sep xs =
     joinStrings sep (map (\<lambda>x. if x = JUndefined \<or> x = JNull then [] else toString x) xs)"

section \<open>Strings\<close>

text \<open>
  The white space that \<^verbatim>\<open>trim\<close> removes: the code points of \<^verbatim>\<open>WhiteSpace\<close> and
  \<^verbatim>\<open>LineTerminator\<close> of ECMAScript, each in UTF-8. They are U+0009 to U+000D, U+0020,
  U+00A0, U+1680, U+2000 to U+200A, U+2028, U+2029, U+202F, U+205F, U+3000 and U+FEFF.
\<close>

definition whiteSpace :: "string list" where
  "whiteSpace =
     [[CHR 0x09], [CHR 0x0A], [CHR 0x0B], [CHR 0x0C], [CHR 0x0D], [CHR 0x20],
      [CHR 0xC2, CHR 0xA0],
      [CHR 0xE1, CHR 0x9A, CHR 0x80],
      [CHR 0xE2, CHR 0x80, CHR 0x80], [CHR 0xE2, CHR 0x80, CHR 0x81],
      [CHR 0xE2, CHR 0x80, CHR 0x82], [CHR 0xE2, CHR 0x80, CHR 0x83],
      [CHR 0xE2, CHR 0x80, CHR 0x84], [CHR 0xE2, CHR 0x80, CHR 0x85],
      [CHR 0xE2, CHR 0x80, CHR 0x86], [CHR 0xE2, CHR 0x80, CHR 0x87],
      [CHR 0xE2, CHR 0x80, CHR 0x88], [CHR 0xE2, CHR 0x80, CHR 0x89],
      [CHR 0xE2, CHR 0x80, CHR 0x8A],
      [CHR 0xE2, CHR 0x80, CHR 0xA8], [CHR 0xE2, CHR 0x80, CHR 0xA9],
      [CHR 0xE2, CHR 0x80, CHR 0xAF],
      [CHR 0xE2, CHR 0x81, CHR 0x9F],
      [CHR 0xE3, CHR 0x80, CHR 0x80],
      [CHR 0xEF, CHR 0xBB, CHR 0xBF]]"

text \<open>
  \<open>dropLeading ws s\<close> removes from the front of \<open>s\<close> every leading occurrence of one of
  the byte sequences \<open>ws\<close>.
\<close>

function dropLeading :: "string list \<Rightarrow> string \<Rightarrow> string" where
  "dropLeading ws s =
     (case find (\<lambda>w. w \<noteq> [] \<and> prefix w s) ws of
        None \<Rightarrow> s
      | Some w \<Rightarrow> dropLeading ws (drop (length w) s))"
  by pat_completeness auto
termination
proof (relation "measure (\<lambda>(ws, s). length s)", goal_cases)
  case 1
  show ?case by simp
next
  case (2 ws s w)
  then have "w \<noteq> []" and "prefix w s"
    by (auto simp: find_Some_iff)
  then show ?case
    by (cases w) (auto simp: prefix_def)
qed

declare dropLeading.simps [simp del]

text \<open>\<^verbatim>\<open>s.trim()\<close>: the white space is removed at the front and then at the end.\<close>

definition trim :: "string \<Rightarrow> string" where
  "trim s = rev (dropLeading (map rev whiteSpace) (rev (dropLeading whiteSpace s)))"

text \<open>
  \<^verbatim>\<open>s.toUpperCase()\<close> is the case mapping of Unicode, a table of the language that the
  repository does not hold: the definitions that call it take it as their parameter
  \<open>toUpperCase\<close>. On a string of ASCII characters it is \<open>asciiUpperCase\<close>, which maps the
  letters \<^verbatim>\<open>a\<close> to \<^verbatim>\<open>z\<close> and leaves every other character.
\<close>

definition isAscii :: "string \<Rightarrow> bool" where
  "isAscii s = list_all (\<lambda>c. of_char c < (128 :: nat)) s"

definition asciiUpperCase :: "string \<Rightarrow> string" where
  "asciiUpperCase s =
     map (\<lambda>c. case map_of (zip ''abcdefghijklmnopqrstuvwxyz'' ''ABCDEFGHIJKLMNOPQRSTUVWXYZ'') c of
                 Some u \<Rightarrow> u
               | None \<Rightarrow> c) s"

text \<open>\<^verbatim>\<open>s.split(sep)\<close> for a one-character separator: \<^verbatim>\<open>''.split(',')\<close> is \<^verbatim>\<open>['']\<close>.\<close>

fun splitOn :: "char \<Rightarrow> string \<Rightarrow> string list" where
  "splitOn sep [] = [[]]"
| "splitOn sep (c # cs) =
     (if c = sep then [] # splitOn sep cs
      else (case splitOn sep cs of
              [] \<Rightarrow> [[c]]
            | p # ps \<Rightarrow> (c # p) # ps))"

text \<open>\<^verbatim>\<open>hay.includes(needle)\<close> and \<^verbatim>\<open>s.startsWith(p)\<close>\<close>

definition strIncludes :: "string \<Rightarrow> string \<Rightarrow> bool" where
  "strIncludes hay needle = sublist needle hay"

definition startsWith :: "string \<Rightarrow> string \<Rightarrow> bool" where
  "startsWith s p = prefix p s"

text \<open>The decimal rendering of an index or counter in a template string.\<close>

fun showNat :: "nat \<Rightarrow> string" where
  "showNat n =
     (if n < 10 then [''0123456789'' ! n]
      else showNat (n div 10) @ [''0123456789'' ! (n mod 10)])"

declare showNat.simps [simp del]

section \<open>Settings accessor\<close>

text \<open>
  \<^verbatim>\<open>const settings = shopify.settings.value || {}\<close> is a plain object: a mapping from its own
  keys to values, with \<^verbatim>\<open>Object.prototype\<close> behind it. \<^verbatim>\<open>settings[key]\<close> is the own value of
  the key, else the property of that name of the prototype, else \<^verbatim>\<open>undefined\<close>. The
  properties of the prototype are built-in functions, rendered by \<^verbatim>\<open>String\<close> as
  \<^verbatim>\<open>function name() { [native code] }\<close> (the white space of the rendering is the engine's;
  this is the one of V8), and \<^verbatim>\<open>__proto__\<close>, which reads the prototype itself.
\<close>

type_synonym settings = "string \<rightharpoonup> jsval"

definition nativeFunction :: "string \<Rightarrow> jsval" where
  "nativeFunction name = JFun (''function '' @ name @ ''() { [native code] }'')"

definition objectPrototypeProperties :: "(string \<times> jsval) list" where
  "objectPrototypeProperties =
     [(''constructor'', nativeFunction ''Object''),
      (''hasOwnProperty'', nativeFunction ''hasOwnProperty''),
      (''isPrototypeOf'', nativeFunction ''isPrototypeOf''),
      (''propertyIsEnumerable'', nativeFunction ''propertyIsEnumerable''),
      (''toLocaleString'', nativeFunction ''toLocaleString''),
      (''toString'', nativeFunction ''toString''),
      (''valueOf'', nativeFunction ''valueOf''),
      (''__defineGetter__'', nativeFunction ''__defineGetter__''),
      (''__defineSetter__'', nativeFunction ''__defineSetter__''),
      (''__lookupGetter__'', nativeFunction ''__lookupGetter__''),
      (''__lookupSetter__'', nativeFunction ''__lookupSetter__'')]"

definition objectPrototype :: "string \<rightharpoonup> jsval" where
  "objectPrototype key =
     (if key = ''__proto__'' then Some (JObj objectPrototypeProperties)
      else map_of objectPrototypeProperties key)"

definition setting :: "settings \<Rightarrow> string \<Rightarrow> jsval" where
  "setting settings key =
     (case settings key of
        Some v \<Rightarrow> v
      | None \<Rightarrow> (case objectPrototype key of Some v \<Rightarrow> v | None \<Rightarrow> JUndefined))"

lemma get_array_smaller: "get v k = JArr xs \<Longrightarrow> size_list size xs < size v"
proof (cases v)
  case (JObj kvs)
  have "map_of kvs k = Some w \<Longrightarrow> size w < Suc (size_list (size_prod (\<lambda>_. 0) size) kvs)" for w
    by (induction kvs) (auto split: if_splits)
  with JObj show "get v k = JArr xs \<Longrightarrow> size_list size xs < size v"
    by (fastforce split: option.splits)
qed (auto split: if_splits)

text \<open>
  \<^verbatim>\<open>extractFromNode\<close> and \<^verbatim>\<open>extractFromChildren\<close> (lines 17 to 32). A \<^verbatim>\<open>text\<close> node gives
  \<^verbatim>\<open>node.value || node.text || ''\<close>, whatever that value is; an array of children gives
  the string that joins the extractions.
\<close>

function extractFromNode :: "jsval \<Rightarrow> jsval"
  and extractFromChildren :: "jsval \<Rightarrow> jsval" where
  "extractFromNode node =
     (if \<not> truthy node then JStr ''''
      else if typeof node = ''string'' then node
      else if typeof node \<noteq> ''object'' then JStr ''''
      else if get node ''type'' = JStr ''text''
        then orElse (get node ''value'') (orElse (get node ''text'') (JStr ''''))
      else if get node ''type'' = JStr ''root'' \<and> truthy (get node ''children'')
        then extractFromChildren (get node ''children'')
      else if truthy (get node ''children'') \<and> isArray (get node ''children'')
        then extractFromChildren (get node ''children'')
      else JStr '''')"
| "extractFromChildren children =
     (case children of
        JArr xs \<Rightarrow> JStr (join '''' (map extractFromNode xs))
      | _ \<Rightarrow> JStr '''')"
  by pat_completeness auto
termination
proof (relation "measure (\<lambda>a. case a of
          Inl node \<Rightarrow> 2 * size node + 2
        | Inr children \<Rightarrow> (if isArray children then 2 * size children + 1 else 0))",
       goal_cases)
  case 1
  show ?case by simp
next
  case (2 node)
  show ?case
  proof (cases "get node ''children''")
    case (JArr xs)
    from get_array_smaller [OF this] JArr show ?thesis by simp
  qed simp_all
next
  case (3 node)
  show ?case
  proof (cases "get node ''children''")
    case (JArr xs)
    from get_array_smaller [OF this] JArr show ?thesis by simp
  qed simp_all
next
  case (4 children xs x)
  then show ?case
    by (auto dest: size_list_estimation' [where f = size and y = "size x"])
qed

declare extractFromNode.simps [simp del]

text \<open>\<^verbatim>\<open>extractTextFromRichText\<close> (lines 13 to 35)\<close>

definition extractTextFromRichText :: "jsval \<Rightarrow> jsval" where
  "extractTextFromRichText richTextObj =
     (if typeof richTextObj = ''string'' then richTextObj
      else if \<not> truthy richTextObj \<or> typeof richTextObj \<noteq> ''object'' then JStr ''''
      else extractFromNode richTextObj)"

text \<open>
  \<^verbatim>\<open>getStringSetting\<close> (lines 37 to 46). \<^verbatim>\<open>extracted.trim()\<close> is a method call: on a truthy
  value that is not a string there is no such method and the call raises a TypeError.
\<close>

definition getStringSetting :: "settings \<Rightarrow> string \<Rightarrow> string \<Rightarrow> error + string" where
  "getStringSetting settings key defaultValue =
     (let v = setting settings key in
      if v = JNull \<or> v = JUndefined then Inr defaultValue
      else if typeof v = ''string'' then Inr (toString v)
      else if typeof v = ''object'' then
        (let extracted = extractTextFromRichText v in
         if \<not> truthy extracted then Inr defaultValue
         else (case extracted of
                 JStr s \<Rightarrow> Inr (if trim s \<noteq> '''' then s else defaultValue)
               | _ \<Rightarrow> Inl TypeError))
      else Inr (toString v))"

text \<open>\<^verbatim>\<open>getBooleanSetting\<close> (lines 48 to 51)\<close>

definition getBooleanSetting :: "settings \<Rightarrow> string \<Rightarrow> bool \<Rightarrow> bool" where
  "getBooleanSetting settings key defaultValue =
     (case setting settings key of JBool b \<Rightarrow> b | _ \<Rightarrow> defaultValue)"

section \<open>Rich-text renderer\<close>

text \<open>
  \<^verbatim>\<open>convertNode\<close> (lines 73 to 141) reads and increments the counter \<^verbatim>\<open>nodeIndex\<close> of the
  enclosing call of \<^verbatim>\<open>parseRichTextLabel\<close>: the model takes the counter and returns it
  with the result. \<open>convertChildren cs pre i n\<close> is
  \<^verbatim>\<open>cs.map((child, i) => convertNode(child, pre + i))\<close> from index \<open>i\<close> on, the children
  converted from left to right.

  \<^verbatim>\<open>node.children && Array.isArray(node.children)\<close> holds exactly when \<^verbatim>\<open>node.children\<close> is
  an array. \<^verbatim>\<open>node.url?.startsWith('http')\<close> is \<^verbatim>\<open>undefined\<close> for a url that is \<^verbatim>\<open>null\<close> or
  \<^verbatim>\<open>undefined\<close>, a method call on a string, and a TypeError on any other value, which
  has no such method.
\<close>

definition urlStartsWithHttp :: "jsval \<Rightarrow> error + bool" where
  "urlStartsWithHttp url =
     (case url of
        JUndefined \<Rightarrow> Inr False
      | JNull \<Rightarrow> Inr False
      | JStr u \<Rightarrow> Inr (startsWith u ''http'')
      | _ \<Rightarrow> Inl TypeError)"

function convertNode :: "jsval \<Rightarrow> string \<Rightarrow> nat \<Rightarrow> error + (jsval \<times> nat)"
  and convertChildren :: "jsval list \<Rightarrow> string \<Rightarrow> nat \<Rightarrow> nat \<Rightarrow> error + (jsval list \<times> nat)"
  where
  "convertNode node keyPrefix nodeIndex =
     (if \<not> truthy node then Inr (JNull, nodeIndex)
      else if typeof node = ''string'' then Inr (node, nodeIndex)
      else if typeof node \<noteq> ''object'' then Inr (JStr (toString node), nodeIndex)
      else if get node ''type'' = JStr ''text'' then
        Inr (orElse (get node ''value'') (orElse (get node ''text'') (JStr '''')), nodeIndex)
      else if get node ''type'' = JStr ''bold'' then
        (case (case get node ''children'' of
                 JArr cs \<Rightarrow>
                   (case convertChildren cs (keyPrefix @ ''-bold-'') 0 nodeIndex of
                      Inl e \<Rightarrow> Inl e
                    | Inr (rs, n) \<Rightarrow> Inr (filter truthy rs, n))
               | _ \<Rightarrow>
                   Inr ([orElse (get node ''value'') (orElse (get node ''text'') (JStr ''''))],
                        nodeIndex)) of
           Inl e \<Rightarrow> Inl e
         | Inr (boldContent, n) \<Rightarrow>
             Inr (JElem ''s-text'' (''bold-'' @ keyPrefix @ ''-'' @ showNat n)
                    [(''emphasis'', JStr ''bold'')] (JArr boldContent),
                  Suc n))
      else if get node ''type'' = JStr ''italic'' then
        (case (case get node ''children'' of
                 JArr cs \<Rightarrow>
                   (case convertChildren cs (keyPrefix @ ''-italic-'') 0 nodeIndex of
                      Inl e \<Rightarrow> Inl e
                    | Inr (rs, n) \<Rightarrow> Inr (filter truthy rs, n))
               | _ \<Rightarrow>
                   Inr ([orElse (get node ''value'') (orElse (get node ''text'') (JStr ''''))],
                        nodeIndex)) of
           Inl e \<Rightarrow> Inl e
         | Inr (italicContent, n) \<Rightarrow>
             Inr (JElem ''s-text'' (''italic-'' @ keyPrefix @ ''-'' @ showNat n)
                    [(''emphasis'', JStr ''italic'')] (JArr italicContent),
                  Suc n))
      else if get node ''type'' = JStr ''link'' then
        (case (case get node ''children'' of
                 JArr cs \<Rightarrow>
                   (case convertChildren cs (keyPrefix @ ''-link-child-'') 0 nodeIndex of
                      Inl e \<Rightarrow> Inl e
                    | Inr (rs, n) \<Rightarrow> Inr (JStr (join '''' (filter truthy rs)), n))
               | _ \<Rightarrow>
                   Inr (orElse (get node ''value'')
                          (orElse (get node ''text'') (orElse (get node ''url'') (JStr ''''))),
                        nodeIndex)) of
           Inl e \<Rightarrow> Inl e
         | Inr (linkText, n) \<Rightarrow>
             (case urlStartsWithHttp (get node ''url'') of
                Inl e \<Rightarrow> Inl e
              | Inr isExternal \<Rightarrow>
                  Inr (JElem ''s-link'' (''link-'' @ keyPrefix @ ''-'' @ showNat n)
                         [(''href'', orElse (get node ''url'') (JStr ''#'')),
                          (''target'', JStr (if isExternal then ''_blank'' else ''_self''))]
                         (orElse linkText (orElse (get node ''url'') (JStr ''link''))),
                       Suc n)))
      else (case get node ''children'' of
              JArr cs \<Rightarrow>
                (case convertChildren cs (keyPrefix @ ''-'') 0 nodeIndex of
                   Inl e \<Rightarrow> Inl e
                 | Inr (rs, n) \<Rightarrow> Inr (JArr (filter truthy rs), n))
            | _ \<Rightarrow> Inr (JNull, nodeIndex)))"
| "convertChildren [] pre i nodeIndex = Inr ([], nodeIndex)"
| "convertChildren (child # cs) pre i nodeIndex =
     (case convertNode child (pre @ showNat i) nodeIndex of
        Inl e \<Rightarrow> Inl e
      | Inr (r, n) \<Rightarrow>
          (case convertChildren cs pre (Suc i) n of
             Inl e \<Rightarrow> Inl e
           | Inr (rs, n') \<Rightarrow> Inr (r # rs, n')))"
  by pat_completeness auto
termination
  by (relation "measure (\<lambda>a. case a of
          Inl (node, keyPrefix, nodeIndex) \<Rightarrow> size node
        | Inr (cs, pre, i, nodeIndex) \<Rightarrow> size_list size cs)")
     (auto dest: get_array_smaller)

declare convertNode.simps [simp del]

text \<open>\<^verbatim>\<open>flatten\<close> (lines 146 to 153)\<close>

fun flatten :: "jsval \<Rightarrow> jsval list" where
  "flatten (JArr arr) =
     concat (map (\<lambda>item.
        if item = JNull \<or> item = JUndefined \<or> item = JStr '''' then []
        else if isArray item then flatten item
        else [item]) arr)"
| "flatten v = [v]"

text \<open>\<^verbatim>\<open>parseRichTextLabel\<close> (lines 66 to 158); the two \<^verbatim>\<open>console.log\<close> calls are left out.\<close>

definition defaultLabel :: string where
  "defaultLabel = ''I agree to the terms and conditions''"

definition parseRichTextLabel :: "jsval \<Rightarrow> error + jsval list" where
  "parseRichTextLabel richTextObj =
     (if \<not> truthy richTextObj \<or> typeof richTextObj \<noteq> ''object'' then
        Inr (if typeof richTextObj = ''string'' then [richTextObj] else [JStr defaultLabel])
      else
        (case convertNode richTextObj ''label'' 0 of
           Inl e \<Rightarrow> Inl e
         | Inr (result, n) \<Rightarrow>
             (let flattened =
                    filter (\<lambda>item. item \<noteq> JNull \<and> item \<noteq> JUndefined \<and> item \<noteq> JStr '''')
                      (flatten result)
              in Inr (if length flattened > 0 then flattened else [JStr defaultLabel]))))"

section \<open>Component state\<close>

text \<open>
  The state that the hooks of \<^verbatim>\<open>Extension\<close> keep between renders (lines 56, 59, 160, 161).
  The country code is the last truthy \<^verbatim>\<open>countryCode\<close> of the shipping address; the empty
  string means that none has arrived.
\<close>

record component_state =
  isChecked :: bool
  showError :: bool
  cartLines :: "jsval list"
  countryCode :: string

section \<open>Visibility evaluator\<close>

text \<open>
  The variant id of a cart line (lines 207 to 210):
  \<^verbatim>\<open>line?.merchandise?.id || line?.merchandise?.variant?.id || line?.variant?.id || ''\<close>
\<close>

definition cartVariantId :: "jsval \<Rightarrow> jsval" where
  "cartVariantId line =
     orElse (optGet (optGet line ''merchandise'') ''id'')
       (orElse (optGet (optGet (optGet line ''merchandise'') ''variant'') ''id'')
          (orElse (optGet (optGet line ''variant'') ''id'') (JStr '''')))"

text \<open>\<^verbatim>\<open>cartLines.map(line => ...).filter(id => id)\<close> (lines 206 to 211)\<close>

definition cartVariantIds :: "jsval list \<Rightarrow> jsval list" where
  "cartVariantIds lines = filter truthy (map cartVariantId lines)"

text \<open>
  \<^verbatim>\<open>variantSelection.split(',').map(v => v.trim()).filter(v => v.length > 0)\<close>
  (lines 201 to 203)
\<close>

definition selectedVariants :: "string \<Rightarrow> string list" where
  "selectedVariants variantSelection =
     filter (\<lambda>v. length v > 0) (map trim (splitOn CHR '','' variantSelection))"

text \<open>
  The test of one cart variant id against one selector (lines 217 to 219 and 226 to 228):
  \<^verbatim>\<open>cartVariantId === selectedVariant || cartVariantId.includes(selectedVariant) ||
  selectedVariant.includes(cartVariantId)\<close>.
  The ids are truthy. On an id that is a string, \<^verbatim>\<open>includes\<close> is the substring test. On
  an array it is membership, and the selector's own \<^verbatim>\<open>includes\<close> converts the array to a
  string. Any other id has no method \<^verbatim>\<open>includes\<close>: the call raises a TypeError.
\<close>

definition variantIdMatches :: "string \<Rightarrow> jsval \<Rightarrow> error + bool" where
  "variantIdMatches selectedVariant variantId =
     (case variantId of
        JStr c \<Rightarrow>
          Inr (c = selectedVariant \<or> strIncludes c selectedVariant \<or> strIncludes selectedVariant c)
      | JArr xs \<Rightarrow>
          Inr (JStr selectedVariant \<in> set xs \<or> strIncludes selectedVariant (toString (JArr xs)))
      | _ \<Rightarrow> Inl TypeError)"

text \<open>
  \<^verbatim>\<open>xs.some(p)\<close> and \<^verbatim>\<open>xs.every(p)\<close> for a test that may raise: the elements are tested
  from left to right and the first decisive element ends the loop.
\<close>

fun some :: "('a \<Rightarrow> error + bool) \<Rightarrow> 'a list \<Rightarrow> error + bool" where
  "some p [] = Inr False"
| "some p (x # xs) =
     (case p x of
        Inl e \<Rightarrow> Inl e
      | Inr b \<Rightarrow> if b then Inr True else some p xs)"

fun every :: "('a \<Rightarrow> error + bool) \<Rightarrow> 'a list \<Rightarrow> error + bool" where
  "every p [] = Inr True"
| "every p (x # xs) =
     (case p x of
        Inl e \<Rightarrow> Inl e
      | Inr b \<Rightarrow> if b then every p xs else Inr False)"

text \<open>The variable \<^verbatim>\<open>variantMatch\<close> of \<^verbatim>\<open>shouldShowCheckbox\<close> (lines 196 to 233).\<close>

definition variantMatch :: "string \<Rightarrow> bool \<Rightarrow> jsval list \<Rightarrow> error + bool" where
  "variantMatch variantSelection matchAnyVariant lines =
     (if variantSelection \<noteq> '''' then
        (let selected = selectedVariants variantSelection in
         if length selected > 0 then
           (let ids = cartVariantIds lines in
            if matchAnyVariant
            then some (\<lambda>selectedVariant. some (variantIdMatches selectedVariant) ids) selected
            else every (\<lambda>selectedVariant. some (variantIdMatches selectedVariant) ids) selected)
         else Inr True)
      else Inr True)"

text \<open>
  \<^verbatim>\<open>countrySelection.split(',').map(c => c.trim().toUpperCase()).filter(c => c)\<close>
  (lines 236 to 238)
\<close>

definition selectedCountries :: "(string \<Rightarrow> string) \<Rightarrow> string \<Rightarrow> string list" where
  "selectedCountries toUpperCase countrySelection =
     filter (\<lambda>c. c \<noteq> '''') (map (\<lambda>c. toUpperCase (trim c)) (splitOn CHR '','' countrySelection))"

text \<open>The variable \<^verbatim>\<open>countryMatch\<close> of \<^verbatim>\<open>shouldShowCheckbox\<close> (lines 197 and 235 to 241).\<close>

definition countryMatch :: "(string \<Rightarrow> string) \<Rightarrow> string \<Rightarrow> string \<Rightarrow> bool" where
  "countryMatch toUpperCase countrySelection code =
     (if countrySelection \<noteq> '''' \<and> code \<noteq> '''' then
        length (selectedCountries toUpperCase countrySelection) = 0
        \<or> toUpperCase code \<in> set (selectedCountries toUpperCase countrySelection)
      else True)"

text \<open>
  \<^verbatim>\<open>shouldShowCheckbox\<close> (lines 193 to 244), a closure of \<^verbatim>\<open>Extension\<close>: it reads the
  settings, the constants \<^verbatim>\<open>variantSelection\<close> and \<^verbatim>\<open>matchAnyVariant\<close> and the state
  variables \<^verbatim>\<open>cartLines\<close> and \<^verbatim>\<open>countryCode\<close>.
\<close>

definition shouldShowCheckbox ::
  "(string \<Rightarrow> string) \<Rightarrow> settings \<Rightarrow> string \<Rightarrow> bool \<Rightarrow> component_state \<Rightarrow> error + bool"
  where
  "shouldShowCheckbox toUpperCase settings variantSelection matchAnyVariant st =
     (case getStringSetting settings ''country_selection'' '''' of
        Inl e \<Rightarrow> Inl e
      | Inr countrySelection \<Rightarrow>
          (case variantMatch variantSelection matchAnyVariant (cartLines st) of
             Inl e \<Rightarrow> Inl e
           | Inr vm \<Rightarrow>
               Inr (vm \<and> countryMatch toUpperCase countrySelection (countryCode st))))"

section \<open>Checkout intercept\<close>

datatype behavior = Allow | Block

text \<open>
  The value that the intercept handler returns. \<^verbatim>\<open>errors\<close> holds the \<^verbatim>\<open>message\<close> of each
  error; \<^verbatim>\<open>perform\<close> is the callback that the host calls with the final result of the
  progression attempt, here with that result's \<^verbatim>\<open>behavior\<close>, and its calls of
  \<^verbatim>\<open>setShowError\<close> are updates of the component state.
\<close>

record interceptor_request =
  behavior :: behavior
  reason :: "string option"
  errors :: "string list option"
  perform :: "(behavior \<Rightarrow> component_state \<Rightarrow> component_state) option"

text \<open>The handler given to \<^verbatim>\<open>useBuyerJourneyIntercept\<close> (lines 250 to 277).\<close>

definition interceptHandler ::
  "bool \<Rightarrow> bool \<Rightarrow> bool \<Rightarrow> string \<Rightarrow> bool \<Rightarrow> interceptor_request" where
  "interceptHandler shouldShow checkboxRequired checked blockErrorMessage canBlockProgress =
     (if \<not> shouldShow then
        \<lparr>behavior = Allow, reason = None, errors = None, perform = None\<rparr>
      else if canBlockProgress \<and> checkboxRequired \<and> \<not> checked then
        \<lparr>behavior = Block,
         reason = Some ''Checkbox not checked'',
         errors = Some [blockErrorMessage],
         perform = Some (\<lambda>result st. if result = Block then st\<lparr>showError := True\<rparr> else st)\<rparr>
      else
        \<lparr>behavior = Allow, reason = None, errors = None,
         perform = Some (\<lambda>result st. st\<lparr>showError := False\<rparr>)\<rparr>)"

text \<open>
  The host finalizes a progression attempt by calling the \<^verbatim>\<open>perform\<close> callback of the
  request, when it has one, with the final result.
\<close>

definition finalize :: "interceptor_request \<Rightarrow> behavior \<Rightarrow> component_state \<Rightarrow> component_state" where
  "finalize request result st =
     (case perform request of
        None \<Rightarrow> st
      | Some callback \<Rightarrow> callback result st)"

section \<open>Extension shell\<close>

text \<open>
  What one render of \<^verbatim>\<open>Extension\<close> (lines 10 to 322) produces: the element it returns and
  the intercept handler it has registered, if the render reached the call of
  \<^verbatim>\<open>useBuyerJourneyIntercept\<close>. A render that raises produces neither.
\<close>

datatype ui =
    RenderNull
  | AttributesBanner
  | Checkbox (checked: bool) (defaultChecked: bool) (required: bool)
      (error: "string option") (label: "jsval list")

record rendered =
  element :: ui
  intercept :: "(bool \<Rightarrow> interceptor_request) option"

definition Extension ::
  "(string \<Rightarrow> string) \<Rightarrow> settings \<Rightarrow> component_state \<Rightarrow> bool \<Rightarrow> error + rendered" where
  "Extension toUpperCase settings st canUpdateAttributes =
     (let hideCheckbox = getBooleanSetting settings ''hide_checkbox'' False;
          defaultChecked = getBooleanSetting settings ''checkbox_default_checked'' False;
          checkboxRequired = getBooleanSetting settings ''checkbox_required'' False
      in
      case getStringSetting settings ''block_error_message''
             ''Please accept the terms to continue'' of
        Inl e \<Rightarrow> Inl e
      | Inr blockErrorMessage \<Rightarrow>
      case getStringSetting settings ''variant_selection'' '''' of
        Inl e \<Rightarrow> Inl e
      | Inr variantSelection \<Rightarrow>
      let matchAnyVariant = getBooleanSetting settings ''match_any_variant'' True in
      if hideCheckbox then Inr \<lparr>element = RenderNull, intercept = None\<rparr>
      else if \<not> canUpdateAttributes then Inr \<lparr>element = AttributesBanner, intercept = None\<rparr>
      else
        case shouldShowCheckbox toUpperCase settings variantSelection matchAnyVariant st of
          Inl e \<Rightarrow> Inl e
        | Inr shouldShow \<Rightarrow>
        let handler = interceptHandler shouldShow checkboxRequired (isChecked st) blockErrorMessage
        in
        if \<not> shouldShow then Inr \<lparr>element = RenderNull, intercept = Some handler\<rparr>
        else
          case parseRichTextLabel (setting settings ''checkbox_label'') of
            Inl e \<Rightarrow> Inl e
          | Inr parsedLabelElements \<Rightarrow>
              Inr \<lparr>element =
                     Checkbox (isChecked st) defaultChecked checkboxRequired
                       (if showError st then Some blockErrorMessage else None)
                       parsedLabelElements,
                   intercept = Some handler\<rparr>)"

section \<open>Notions of the specification\<close>

text \<open>
  What a render contributes to one attempt of the buyer to progress: the \<^verbatim>\<open>behavior\<close> of the
  request that its registered handler returns. A render that registered no handler, or
  that raised, takes no part in the attempt and leaves it allowed.
\<close>

definition attemptProgress :: "error + rendered \<Rightarrow> bool \<Rightarrow> behavior" where
  "attemptProgress r canBlockProgress =
     (case r of
        Inl e \<Rightarrow> Allow
      | Inr out \<Rightarrow>
          (case intercept out of
             None \<Rightarrow> Allow
           | Some handler \<Rightarrow> behavior (handler canBlockProgress)))"

definition rendersCheckbox :: "error + rendered \<Rightarrow> bool" where
  "rendersCheckbox r =
     (case r of
        Inl e \<Rightarrow> False
      | Inr out \<Rightarrow>
          (case element out of
             Checkbox c d q e l \<Rightarrow> True
           | _ \<Rightarrow> False))"

text \<open>
  The three identifier paths of a cart line, in the order in which \<open>cartVariantId\<close>
  tries them.
\<close>

definition merchandiseId :: "jsval \<Rightarrow> jsval" where
  "merchandiseId line = optGet (optGet line ''merchandise'') ''id''"

definition merchandiseVariantId :: "jsval \<Rightarrow> jsval" where
  "merchandiseVariantId line = optGet (optGet (optGet line ''merchandise'') ''variant'') ''id''"

definition variantId :: "jsval \<Rightarrow> jsval" where
  "variantId line = optGet (optGet line ''variant'') ''id''"

text \<open>
  A rich-text document as the data model describes it: a \<^verbatim>\<open>text\<close> node holds a string, a
  \<^verbatim>\<open>bold\<close> or \<^verbatim>\<open>italic\<close> node holds children, a \<^verbatim>\<open>link\<close> node holds a url and children, and
  any other node with children (\<^verbatim>\<open>root\<close>, \<^verbatim>\<open>paragraph\<close>, ...) is a container named by its
  type. \<open>encode\<close> is the object that the host delivers for it.
\<close>

datatype rt_node =
    Text string
  | Bold "rt_node list"
  | Italic "rt_node list"
  | Link string "rt_node list"
  | Container string "rt_node list"

fun encode :: "rt_node \<Rightarrow> jsval" where
  "encode (Text s) = JObj [(''type'', JStr ''text''), (''value'', JStr s)]"
| "encode (Bold cs) = JObj [(''type'', JStr ''bold''), (''children'', JArr (map encode cs))]"
| "encode (Italic cs) = JObj [(''type'', JStr ''italic''), (''children'', JArr (map encode cs))]"
| "encode (Link url cs) =
     JObj [(''type'', JStr ''link''), (''url'', JStr url), (''children'', JArr (map encode cs))]"
| "encode (Container t cs) = JObj [(''type'', JStr t), (''children'', JArr (map encode cs))]"

text \<open>The type of a container is none of the four types that have a meaning of their own.\<close>

fun wellFormed :: "rt_node \<Rightarrow> bool" where
  "wellFormed (Text s) = True"
| "wellFormed (Bold cs) = list_all wellFormed cs"
| "wellFormed (Italic cs) = list_all wellFormed cs"
| "wellFormed (Link url cs) = list_all wellFormed cs"
| "wellFormed (Container t cs) =
     (t \<notin> set [''text'', ''bold'', ''italic'', ''link''] \<and> list_all wellFormed cs)"

text \<open>A document whose leaves are all \<^verbatim>\<open>text\<close> nodes under containers.\<close>

fun textOnly :: "rt_node \<Rightarrow> bool" where
  "textOnly (Text s) = True"
| "textOnly (Container t cs) =
     (t \<notin> set [''text'', ''bold'', ''italic'', ''link''] \<and> list_all textOnly cs)"
| "textOnly _ = False"

text \<open>The plain text of a document: the values of its \<^verbatim>\<open>text\<close> nodes, in document order.\<close>

fun plainText :: "rt_node \<Rightarrow> string" where
  "plainText (Text s) = s"
| "plainText (Bold cs) = concat (map plainText cs)"
| "plainText (Italic cs) = concat (map plainText cs)"
| "plainText (Link url cs) = concat (map plainText cs)"
| "plainText (Container t cs) = concat (map plainText cs)"

text \<open>
  What \<^verbatim>\<open>parseRichTextLabel\<close> keeps of a converted node: its flattening without \<^verbatim>\<open>null\<close>,
  \<^verbatim>\<open>undefined\<close> and the empty string (line 155).
\<close>

definition kept :: "jsval \<Rightarrow> jsval list" where
  "kept result =
     filter (\<lambda>item. item \<noteq> JNull \<and> item \<noteq> JUndefined \<and> item \<noteq> JStr '''') (flatten result)"

text \<open>
  A string property that may be absent: its string, which is empty when the property is
  \<^verbatim>\<open>undefined\<close> or \<^verbatim>\<open>null\<close>; there is none when the property holds another value.
\<close>

definition optString :: "jsval \<Rightarrow> string option" where
  "optString v =
     (case v of
        JStr s \<Rightarrow> Some s
      | JUndefined \<Rightarrow> Some []
      | JNull \<Rightarrow> Some []
      | _ \<Rightarrow> None)"

text \<open>
  The link fragment of the specification, for a url (empty when absent) and a link text:
  the \<^verbatim>\<open>href\<close> is the url or \<^verbatim>\<open>"#"\<close>, the target is \<^verbatim>\<open>"_blank"\<close> exactly for a url that
  starts with \<^verbatim>\<open>http\<close>, and the displayed text is the link text, else the url, else
  \<^verbatim>\<open>"link"\<close>.
\<close>

definition linkFragment :: "string \<Rightarrow> string \<Rightarrow> string \<Rightarrow> jsval" where
  "linkFragment key url linkText =
     JElem ''s-link'' key
       [(''href'', JStr (if url = [] then ''#'' else url)),
        (''target'', JStr (if startsWith url ''http'' then ''_blank'' else ''_self''))]
       (JStr (if linkText \<noteq> [] then linkText else if url \<noteq> [] then url else ''link''))"

section \<open>Auxiliary facts\<close>

lemmas trim_eval = trim_def whiteSpace_def dropLeading.simps

lemma trim_Nil: "trim [] = []"
  by (simp add: trim_eval)

lemma dropLeading_decomp:
  "\<exists>xs. set xs \<subseteq> set ws \<and> s = concat xs @ dropLeading ws s"
proof (induction ws s rule: dropLeading.induct)
  case (1 ws s)
  show ?case
  proof (cases "find (\<lambda>w. w \<noteq> [] \<and> prefix w s) ws")
    case None
    then have "dropLeading ws s = s" by (simp add: dropLeading.simps)
    then have "set [] \<subseteq> set ws \<and> s = concat [] @ dropLeading ws s" by simp
    then show ?thesis by blast
  next
    case (Some w)
    then have w: "w \<in> set ws" "prefix w s"
      by (auto simp: find_Some_iff)
    from "1.IH" [OF Some] obtain xs where xs: "set xs \<subseteq> set ws"
      "drop (length w) s = concat xs @ dropLeading ws (drop (length w) s)"
      by blast
    from w have "s = w @ drop (length w) s" by (auto simp: prefix_def)
    with xs Some have "set (w # xs) \<subseteq> set ws \<and> s = concat (w # xs) @ dropLeading ws s"
      using w by (simp add: dropLeading.simps [of ws s])
    then show ?thesis by blast
  qed
qed

lemma dropLeading_done:
  "w \<in> set ws \<Longrightarrow> w \<noteq> [] \<Longrightarrow> \<not> prefix w (dropLeading ws s)"
proof (induction ws s rule: dropLeading.induct)
  case (1 ws s)
  show ?case
  proof (cases "find (\<lambda>w. w \<noteq> [] \<and> prefix w s) ws")
    case None
    then have "dropLeading ws s = s" by (simp add: dropLeading.simps [of ws s])
    with None "1.prems" show ?thesis
      by (auto simp: find_None_iff)
  next
    case (Some v)
    with "1.IH" [OF Some "1.prems"] show ?thesis
      by (simp add: dropLeading.simps [of ws s])
  qed
qed

lemma whiteSpace_nonempty: "w \<in> set whiteSpace \<Longrightarrow> w \<noteq> []"
  by (auto simp: whiteSpace_def)

lemma trim_decomp:
  "\<exists>front back. set front \<subseteq> set whiteSpace \<and> set back \<subseteq> set whiteSpace
      \<and> s = concat front @ trim s @ concat back"
proof -
  obtain xs where xs: "set xs \<subseteq> set whiteSpace" "s = concat xs @ dropLeading whiteSpace s"
    using dropLeading_decomp by blast
  obtain ys where ys: "set ys \<subseteq> set (map rev whiteSpace)"
    "rev (dropLeading whiteSpace s) = concat ys @ rev (trim s)"
    using dropLeading_decomp [of "map rev whiteSpace" "rev (dropLeading whiteSpace s)"]
    by (auto simp: trim_def)
  from ys(2) have "dropLeading whiteSpace s = trim s @ rev (concat ys)"
    by (metis rev_append rev_rev_ident)
  also have "rev (concat ys) = concat (map rev (rev ys))"
    by (simp add: rev_concat rev_map)
  finally have "s = concat xs @ trim s @ concat (map rev (rev ys))"
    using xs(2) by simp
  moreover from ys(1) have "set (map rev (rev ys)) \<subseteq> set whiteSpace"
    by auto
  ultimately show ?thesis using xs(1) by blast
qed

lemma trim_clean:
  assumes "w \<in> set whiteSpace"
  shows "\<not> prefix w (trim s) \<and> \<not> suffix w (trim s)"
proof
  obtain ys where "rev (dropLeading whiteSpace s) = concat ys @ rev (trim s)"
    using dropLeading_decomp [of "map rev whiteSpace" "rev (dropLeading whiteSpace s)"]
    by (auto simp: trim_def)
  then have "dropLeading whiteSpace s = trim s @ rev (concat ys)"
    by (metis rev_append rev_rev_ident)
  then have "prefix (trim s) (dropLeading whiteSpace s)"
    by (simp add: prefix_def)
  with dropLeading_done [OF assms whiteSpace_nonempty [OF assms], of s]
  show "\<not> prefix w (trim s)"
    using prefix_order.trans by blast
next
  from assms have "rev w \<in> set (map rev whiteSpace)" "rev w \<noteq> []"
    using whiteSpace_nonempty by auto
  from dropLeading_done [OF this, of "rev (dropLeading whiteSpace s)"]
  show "\<not> suffix w (trim s)"
    by (simp add: trim_def suffix_to_prefix)
qed

lemma whiteSpace_prefix_free:
  "v \<in> set whiteSpace \<Longrightarrow> w \<in> set whiteSpace \<Longrightarrow> prefix v (w @ r) \<Longrightarrow> v = w"
  unfolding whiteSpace_def by (elim disjE | simp)+

lemma dropLeading_Nil: "dropLeading ws [] = []"
proof -
  have "find (\<lambda>w. w \<noteq> [] \<and> prefix w []) ws = None"
    by (simp add: find_None_iff)
  then show ?thesis
    by (subst dropLeading.simps) simp
qed

lemma dropLeading_whiteSpace:
  "set xs \<subseteq> set whiteSpace \<Longrightarrow>
   dropLeading whiteSpace (concat xs @ r) = dropLeading whiteSpace r"
proof (induction xs)
  case Nil
  show ?case by simp
next
  case (Cons x xs)
  then have x: "x \<in> set whiteSpace" "x \<noteq> []"
    using whiteSpace_nonempty by auto
  then have "find (\<lambda>w. w \<noteq> [] \<and> prefix w (x @ concat xs @ r)) whiteSpace \<noteq> None"
    by (auto simp: find_None_iff)
  then obtain v where v: "find (\<lambda>w. w \<noteq> [] \<and> prefix w (x @ concat xs @ r)) whiteSpace = Some v"
    by blast
  then have "v \<in> set whiteSpace" "prefix v (x @ concat xs @ r)"
    by (auto simp: find_Some_iff)
  with x have "v = x" using whiteSpace_prefix_free by blast
  with v Cons show ?case
    by (simp add: dropLeading.simps [of whiteSpace "x @ concat xs @ r"])
qed

lemma trim_empty_iff:
  "trim s = [] \<longleftrightarrow> (\<exists>xs. set xs \<subseteq> set whiteSpace \<and> s = concat xs)"
proof
  assume "trim s = []"
  with trim_decomp [of s] obtain front rear
    where "set front \<subseteq> set whiteSpace" "set rear \<subseteq> set whiteSpace"
      "s = concat front @ concat rear"
    by auto
  then have "set (front @ rear) \<subseteq> set whiteSpace \<and> s = concat (front @ rear)"
    by simp
  then show "\<exists>xs. set xs \<subseteq> set whiteSpace \<and> s = concat xs" by blast
next
  assume "\<exists>xs. set xs \<subseteq> set whiteSpace \<and> s = concat xs"
  then obtain xs where "set xs \<subseteq> set whiteSpace" "s = concat xs" by blast
  with dropLeading_whiteSpace [of xs "[]"] show "trim s = []"
    by (simp add: trim_def dropLeading_Nil)
qed

lemma set_selectedCountries:
  "set (selectedCountries toUpperCase cs) =
     {u. \<exists>c \<in> set (splitOn CHR '','' cs). u = toUpperCase (trim c) \<and> u \<noteq> []}"
  by (auto simp: selectedCountries_def)

lemma some_total:
  "\<forall>x \<in> set xs. p x = Inr (q x) \<Longrightarrow> some p xs = Inr (\<exists>x \<in> set xs. q x)"
  by (induction xs) auto

lemma every_total:
  "\<forall>x \<in> set xs. p x = Inr (q x) \<Longrightarrow> every p xs = Inr (\<forall>x \<in> set xs. q x)"
  by (induction xs) auto

lemma variantIdMatches_string:
  "variantIdMatches sel (JStr c) =
     Inr (c = sel \<or> strIncludes c sel \<or> strIncludes sel c)"
  by (simp add: variantIdMatches_def)

lemma strIncludes_iff: "strIncludes hay needle \<longleftrightarrow> (\<exists>p s. hay = p @ needle @ s)"
  by (simp add: strIncludes_def sublist_def)

lemma selectedVariants_empty: "selectedVariants [] = []"
  by (simp add: selectedVariants_def trim_Nil)

lemma line_A: "cartVariantIds [JObj [(''merchandise'', JObj [(''id'', JStr ''A'')])]] = map JStr [''A'']"
  by (simp add: cartVariantIds_def cartVariantId_def optGet_def orElse_def)

lemma sel_AB: "selectedVariants ''A,B'' = [''A'', ''B'']"
  by (simp add: selectedVariants_def trim_eval)

lemma joinStrings_empty_sep: "joinStrings [] ss = concat ss"
  by (induction "[] :: string" ss rule: joinStrings.induct) simp_all

lemma join_empty_sep:
  "join [] xs = concat (map (\<lambda>x. if x = JUndefined \<or> x = JNull then [] else toString x) xs)"
  by (simp add: join_def joinStrings_empty_sep)

lemma join_strings: "join [] (map JStr ss) = concat ss"
  by (simp add: join_empty_sep comp_def)

lemma join_append: "join [] (xs @ ys) = join [] xs @ join [] ys"
  by (simp add: join_empty_sep)

lemma encode_object: "truthy (encode d) \<and> typeof (encode d) = ''object''"
  by (cases d) simp_all

lemma extractFromNode_encode:
  "wellFormed d \<Longrightarrow> extractFromNode (encode d) = JStr (plainText d)"
proof (induction d)
  case (Text s)
  show ?case by (simp add: extractFromNode.simps orElse_def)
next
  case (Bold cs)
  then have "map extractFromNode (map encode cs) = map JStr (map plainText cs)"
    by (simp add: list_all_iff)
  then show ?case
    by (simp add: extractFromNode.simps [of "JObj kvs" for kvs] join_strings del: map_map)
next
  case (Italic cs)
  then have "map extractFromNode (map encode cs) = map JStr (map plainText cs)"
    by (simp add: list_all_iff)
  then show ?case
    by (simp add: extractFromNode.simps [of "JObj kvs" for kvs] join_strings del: map_map)
next
  case (Link url cs)
  then have "map extractFromNode (map encode cs) = map JStr (map plainText cs)"
    by (simp add: list_all_iff)
  then show ?case
    by (simp add: extractFromNode.simps [of "JObj kvs" for kvs] join_strings del: map_map)
next
  case (Container t cs)
  then have "map extractFromNode (map encode cs) = map JStr (map plainText cs)"
    by (simp add: list_all_iff)
  with Container.prems show ?case
    by (simp add: extractFromNode.simps [of "JObj kvs" for kvs] join_strings del: map_map)
qed

lemma extractText_encode:
  "wellFormed d \<Longrightarrow> extractTextFromRichText (encode d) = JStr (plainText d)"
  using encode_object [of d] by (simp add: extractTextFromRichText_def extractFromNode_encode)

lemma textOnly_wellFormed: "textOnly d \<Longrightarrow> wellFormed d"
  by (induction d) (auto simp: list_all_iff)

lemma flatten_clean:
  "isArray v \<Longrightarrow> x \<in> set (flatten v) \<Longrightarrow> x \<noteq> JNull \<and> x \<noteq> JUndefined \<and> x \<noteq> JStr ''''"
proof (induction v arbitrary: x rule: flatten.induct)
  case (1 arr)
  from "1.prems" obtain item where item: "item \<in> set arr"
    and x: "x \<in> set (if item = JNull \<or> item = JUndefined \<or> item = JStr '''' then []
                      else if isArray item then flatten item else [item])"
    by auto
  show ?case
  proof (cases "item = JNull \<or> item = JUndefined \<or> item = JStr ''''")
    case True
    with x show ?thesis by simp
  next
    case False
    show ?thesis
    proof (cases "isArray item")
      case True
      with False x item "1.IH" [of item x] show ?thesis by simp
    next
      case no: False
      with False x show ?thesis by auto
    qed
  qed
qed simp_all

lemma kept_array: "kept (JArr xs) = flatten (JArr xs)"
  unfolding kept_def
  by (rule filter_True) (use flatten_clean [of "JArr xs"] in auto)

lemma kept_item:
  "(if item = JNull \<or> item = JUndefined \<or> item = JStr '''' then []
    else if isArray item then flatten item else [item]) = kept item"
proof (cases item)
  case (JArr xs)
  then show ?thesis using kept_array [of xs] by simp
qed (simp_all add: kept_def)

lemma flatten_array: "flatten (JArr xs) = concat (map kept xs)"
  by (simp add: kept_item)

lemma kept_array_concat: "kept (JArr xs) = concat (map kept xs)"
  by (simp only: kept_array flatten_array)

lemma parseRichTextLabel_object:
  "truthy obj \<Longrightarrow> typeof obj = ''object'' \<Longrightarrow>
   parseRichTextLabel obj =
     (case convertNode obj ''label'' 0 of
        Inl e \<Rightarrow> Inl e
      | Inr (result, n) \<Rightarrow> Inr (if kept result \<noteq> [] then kept result else [JStr defaultLabel]))"
  by (simp add: parseRichTextLabel_def kept_def Let_def split: sum.splits prod.splits)

lemma convertNode_text:
  "convertNode (encode (Text s)) p n = Inr (JStr s, n)"
  by (simp add: convertNode.simps orElse_def)

lemma convertNode_container:
  "t \<notin> set [''text'', ''bold'', ''italic'', ''link''] \<Longrightarrow>
   convertNode (encode (Container t cs)) p n =
     (case convertChildren (map encode cs) (p @ ''-'') 0 n of
        Inl e \<Rightarrow> Inl e
      | Inr (rs, m) \<Rightarrow> Inr (JArr (filter truthy rs), m))"
  by (simp add: convertNode.simps)

lemma convertChildren_textOnly:
  assumes "\<And>c p n. c \<in> set cs \<Longrightarrow>
             \<exists>v. convertNode (encode c) p n = Inr (v, n)
                 \<and> (\<forall>x \<in> set (kept v). \<exists>s. x = JStr s)
                 \<and> join [] (kept v) = plainText c
                 \<and> (truthy v \<or> v = JStr [])"
  shows "\<exists>vs. convertChildren (map encode cs) pre i n = Inr (vs, n)
              \<and> (\<forall>x \<in> set (concat (map kept (filter truthy vs))). \<exists>s. x = JStr s)
              \<and> join [] (concat (map kept (filter truthy vs))) = concat (map plainText cs)"
  using assms
proof (induction cs arbitrary: i)
  case Nil
  show ?case by (simp add: join_empty_sep)
next
  case (Cons c cs)
  from Cons.prems [of c "pre @ showNat i" n] obtain v
    where v: "convertNode (encode c) (pre @ showNat i) n = Inr (v, n)"
      and s: "\<forall>x \<in> set (kept v). \<exists>s. x = JStr s"
      and k: "join [] (kept v) = plainText c"
      and t: "truthy v \<or> v = JStr []"
    by auto
  from Cons.IH [of "Suc i"] Cons.prems obtain vs
    where vs: "convertChildren (map encode cs) pre (Suc i) n = Inr (vs, n)"
      and ss: "\<forall>x \<in> set (concat (map kept (filter truthy vs))). \<exists>s. x = JStr s"
      and ks: "join [] (concat (map kept (filter truthy vs))) = concat (map plainText cs)"
    by auto
  have e: "kept (JStr []) = []" by (simp add: kept_def)
  show ?case
  proof (cases "truthy v")
    case True
    with v vs s ss k ks show ?thesis by (auto simp: join_append)
  next
    case False
    with t have "v = JStr []" by simp
    with v vs s ss k ks e show ?thesis by (auto simp: join_append join_empty_sep)
  qed
qed

lemma convertNode_textOnly:
  "textOnly d \<Longrightarrow>
   \<exists>v. convertNode (encode d) p n = Inr (v, n)
       \<and> (\<forall>x \<in> set (kept v). \<exists>s. x = JStr s)
       \<and> join [] (kept v) = plainText d
       \<and> (truthy v \<or> v = JStr [])"
proof (induction d arbitrary: p n)
  case (Text s)
  show ?case using convertNode_text [of s p n] by (auto simp: kept_def join_empty_sep)
next
  case (Container t cs)
  from Container.prems have t: "t \<notin> set [''text'', ''bold'', ''italic'', ''link'']"
    and cs: "\<And>c. c \<in> set cs \<Longrightarrow> textOnly c"
    by (auto simp: list_all_iff)
  from convertChildren_textOnly [of cs "p @ ''-''" 0 n] Container.IH cs obtain vs
    where "convertChildren (map encode cs) (p @ ''-'') 0 n = Inr (vs, n)"
      and "\<forall>x \<in> set (concat (map kept (filter truthy vs))). \<exists>s. x = JStr s"
      and "join [] (concat (map kept (filter truthy vs))) = concat (map plainText cs)"
    by blast
  with convertNode_container [OF t, of cs p n] show ?case
    by (simp add: kept_array_concat)
qed simp_all

lemma join_strings_empty:
  "\<forall>x \<in> set xs. \<exists>s. x = JStr s \<and> s \<noteq> [] \<Longrightarrow> join [] xs = [] \<Longrightarrow> xs = []"
  by (cases xs) (auto simp: join_empty_sep)

lemma kept_clean: "x \<in> set (kept v) \<Longrightarrow> x \<noteq> JNull \<and> x \<noteq> JUndefined \<and> x \<noteq> JStr []"
  by (simp add: kept_def)

lemma get_defined: "get node k \<noteq> JUndefined \<Longrightarrow> truthy node \<and> typeof node = ''object''"
  by (cases node) simp_all

lemma optString_cases:
  "optString x = Some s \<Longrightarrow> x = JStr s \<or> s = [] \<and> (x = JUndefined \<or> x = JNull)"
  by (cases x) (simp_all add: optString_def)

lemma orElse_optString:
  "optString x = Some s \<Longrightarrow> orElse x y = (if s \<noteq> [] then JStr s else y)"
  by (drule optString_cases) (auto simp: orElse_def)

lemma orElse_JStr: "orElse (JStr s) y = (if s \<noteq> [] then JStr s else y)"
  by (simp add: orElse_def)

lemma urlStartsWithHttp_optString:
  "optString x = Some s \<Longrightarrow> urlStartsWithHttp x = Inr (startsWith s ''http'')"
  by (drule optString_cases) (auto simp: urlStartsWithHttp_def startsWith_def)


text \<open>
  The two filters of \<open>shouldShowCheckbox\<close> are combined by conjunction, and the handler
  that a render registers is \<open>interceptHandler\<close> on the visibility of that render, the
  setting \<^verbatim>\<open>checkbox_required\<close>, the state of the checkbox and the configured message.
\<close>

lemma shouldShowCheckbox_filters:
  "getStringSetting settings ''country_selection'' '''' = Inr countrySelection \<Longrightarrow>
   variantMatch variantSelection matchAnyVariant (cartLines st) = Inr vm \<Longrightarrow>
   shouldShowCheckbox toUpperCase settings variantSelection matchAnyVariant st
     = Inr (vm \<and> countryMatch toUpperCase countrySelection (countryCode st))"
  by (simp add: shouldShowCheckbox_def)

lemma Extension_handler:
  assumes "Extension toUpperCase settings st canUpdateAttributes = Inr out"
    and "intercept out = Some handler"
  shows "\<exists>shouldShow msg variantSelection.
           getStringSetting settings ''block_error_message''
             ''Please accept the terms to continue'' = Inr msg
           \<and> getStringSetting settings ''variant_selection'' '''' = Inr variantSelection
           \<and> shouldShowCheckbox toUpperCase settings variantSelection
               (getBooleanSetting settings ''match_any_variant'' True) st = Inr shouldShow
           \<and> handler = interceptHandler shouldShow
               (getBooleanSetting settings ''checkbox_required'' False) (isChecked st) msg"
  using assms
  by (auto simp: Extension_def Let_def split: sum.splits if_splits)

section \<open>Checkout intercept: the decision and its finalization\<close>

text \<open>
  C1, as stated, fails where the checkbox is not visible: the handler then returns a bare
  \<^verbatim>\<open>allow\<close> without a \<^verbatim>\<open>perform\<close> callback, so that finalization leaves an error that is
  visible as it is, instead of setting \<^verbatim>\<open>errorVisible\<close> to false.
\<close>

theorem intercept_invisible_keeps_error:
  "\<not> (showError (finalize (interceptHandler False True False ''Please accept'' True) Allow
        \<lparr>isChecked = False, showError = True, cartLines = [], countryCode = ''''\<rparr>) = False)"
  by (simp add: interceptHandler_def finalize_def)

text \<open>
  C1, amended. When the checkbox is visible: if blocking is permitted, the checkbox is
  required and it is not checked, the handler returns \<^verbatim>\<open>block\<close> with the reason
  \<^verbatim>\<open>"Checkbox not checked"\<close> and exactly one error, which carries the configured message,
  and finalization of the block sets \<^verbatim>\<open>errorVisible\<close> to true; in every other case with
  a visible checkbox it returns \<^verbatim>\<open>allow\<close> and finalization sets \<^verbatim>\<open>errorVisible\<close> to false.
  When the checkbox is not visible it returns \<^verbatim>\<open>allow\<close> and finalization changes nothing.
\<close>

theorem intercept_decision:
  "(shouldShow \<and> canBlockProgress \<and> checkboxRequired \<and> \<not> boxChecked \<longrightarrow>
      behavior (interceptHandler shouldShow checkboxRequired boxChecked msg canBlockProgress)
        = Block
      \<and> reason (interceptHandler shouldShow checkboxRequired boxChecked msg canBlockProgress)
          = Some ''Checkbox not checked''
      \<and> errors (interceptHandler shouldShow checkboxRequired boxChecked msg canBlockProgress)
          = Some [msg]
      \<and> showError (finalize
            (interceptHandler shouldShow checkboxRequired boxChecked msg canBlockProgress)
            Block st))
   \<and> (shouldShow \<and> \<not> (canBlockProgress \<and> checkboxRequired \<and> \<not> boxChecked) \<longrightarrow>
      behavior (interceptHandler shouldShow checkboxRequired boxChecked msg canBlockProgress)
        = Allow
      \<and> \<not> showError (finalize
            (interceptHandler shouldShow checkboxRequired boxChecked msg canBlockProgress)
            result st))
   \<and> (\<not> shouldShow \<longrightarrow>
      behavior (interceptHandler shouldShow checkboxRequired boxChecked msg canBlockProgress)
        = Allow
      \<and> finalize (interceptHandler shouldShow checkboxRequired boxChecked msg canBlockProgress)
            result st = st)"
  by (simp add: interceptHandler_def finalize_def)

theorem intercept_decision_witness:
  "behavior (interceptHandler True True False ''Please accept'' True) = Block
   \<and> errors (interceptHandler True True False ''Please accept'' True) = Some [''Please accept'']
   \<and> showError (finalize (interceptHandler True True False ''Please accept'' True) Block
        \<lparr>isChecked = False, showError = False, cartLines = [], countryCode = ''''\<rparr>)
   \<and> behavior (interceptHandler True True True ''Please accept'' True) = Allow
   \<and> \<not> showError (finalize (interceptHandler True True True ''Please accept'' True) Allow
        \<lparr>isChecked = True, showError = True, cartLines = [], countryCode = ''''\<rparr>)
   \<and> finalize (interceptHandler False True False ''Please accept'' True) Allow
        \<lparr>isChecked = False, showError = True, cartLines = [], countryCode = ''''\<rparr>
      = \<lparr>isChecked = False, showError = True, cartLines = [], countryCode = ''''\<rparr>"
  using
    intercept_decision [where shouldShow = True and canBlockProgress = True
      and checkboxRequired = True and boxChecked = False and msg = "''Please accept''"
      and st = "\<lparr>isChecked = False, showError = False, cartLines = [], countryCode = ''''\<rparr>"
      and result = Allow]
    intercept_decision [where shouldShow = True and canBlockProgress = True
      and checkboxRequired = True and boxChecked = True and msg = "''Please accept''"
      and st = "\<lparr>isChecked = True, showError = True, cartLines = [], countryCode = ''''\<rparr>"
      and result = Allow]
    intercept_decision [where shouldShow = False and canBlockProgress = True
      and checkboxRequired = True and boxChecked = False and msg = "''Please accept''"
      and st = "\<lparr>isChecked = False, showError = True, cartLines = [], countryCode = ''''\<rparr>"
      and result = Allow]
  by simp

section \<open>Visibility: the variant filter\<close>

text \<open>
  C2. \<^verbatim>\<open>includes\<close> is the substring test. For cart lines whose variant ids are the strings
  \<open>ids\<close>: a selector matches an id when the two are equal or either contains the other;
  the variant filter passes when no selector is parsed, and otherwise, with
  \<^verbatim>\<open>match_any_variant\<close> true, exactly when some selector matches some id, and with
  \<^verbatim>\<open>match_any_variant\<close> false, exactly when every selector matches some id. With the
  selection \<^verbatim>\<open>"A,B"\<close> and a cart that holds only the variant \<^verbatim>\<open>"A"\<close> it passes in the first
  mode and fails in the second.
\<close>

theorem variant_filter:
  assumes ids: "cartVariantIds lines = map JStr ids"
  shows "(strIncludes hay needle \<longleftrightarrow> (\<exists>p s. hay = p @ needle @ s))
         \<and> variantMatch variantSelection matchAnyVariant lines =
           Inr (selectedVariants variantSelection = []
                \<or> (if matchAnyVariant
                    then \<exists>sel \<in> set (selectedVariants variantSelection). \<exists>c \<in> set ids.
                           c = sel \<or> strIncludes c sel \<or> strIncludes sel c
                    else \<forall>sel \<in> set (selectedVariants variantSelection). \<exists>c \<in> set ids.
                           c = sel \<or> strIncludes c sel \<or> strIncludes sel c))
         \<and> variantMatch ''A,B'' True [JObj [(''merchandise'', JObj [(''id'', JStr ''A'')])]]
             = Inr True
         \<and> variantMatch ''A,B'' False [JObj [(''merchandise'', JObj [(''id'', JStr ''A'')])]]
             = Inr False"
proof -
  let ?M = "\<lambda>sel c. c = sel \<or> strIncludes c sel \<or> strIncludes sel c"
  have inner: "some (variantIdMatches sel) (map JStr xs) = Inr (\<exists>c \<in> set xs. ?M sel c)"
    for sel xs
    using some_total [of "map JStr xs" "variantIdMatches sel" "\<lambda>v. \<exists>c. v = JStr c \<and> ?M sel c"]
    by (auto simp: variantIdMatches_string)
  have gen: "variantMatch vs b ls =
           Inr (selectedVariants vs = []
                \<or> (if b
                    then \<exists>sel \<in> set (selectedVariants vs). \<exists>c \<in> set xs. ?M sel c
                    else \<forall>sel \<in> set (selectedVariants vs). \<exists>c \<in> set xs. ?M sel c))"
    if "cartVariantIds ls = map JStr xs" for vs b ls xs
  proof (cases "selectedVariants vs = []")
    case True
    then show ?thesis by (simp add: variantMatch_def)
  next
    case False
    then have "vs \<noteq> []" using selectedVariants_empty by auto
    with False that show ?thesis
      using some_total [of "selectedVariants vs" "\<lambda>sel. some (variantIdMatches sel) (map JStr xs)"
              "\<lambda>sel. \<exists>c \<in> set xs. ?M sel c"]
            every_total [of "selectedVariants vs" "\<lambda>sel. some (variantIdMatches sel) (map JStr xs)"
              "\<lambda>sel. \<exists>c \<in> set xs. ?M sel c"]
      by (simp add: variantMatch_def inner)
  qed
  have t: "variantMatch ''A,B'' True [JObj [(''merchandise'', JObj [(''id'', JStr ''A'')])]]
             = Inr True"
    using gen [OF line_A, of "''A,B''" True] by (simp add: sel_AB)
  have f: "variantMatch ''A,B'' False [JObj [(''merchandise'', JObj [(''id'', JStr ''A'')])]]
             = Inr False"
    using gen [OF line_A, of "''A,B''" False]
    by (simp add: sel_AB strIncludes_def sublist_code)
  from gen [OF ids] t f strIncludes_iff show ?thesis by simp
qed

theorem variant_filter_witness:
  "cartVariantIds [JObj [(''merchandise'', JObj [(''id'', JStr ''gid://shopify/ProductVariant/42'')])],
                   JObj [(''quantity'', JNum ''1'')]]
     = map JStr [''gid://shopify/ProductVariant/42'']
   \<and> variantMatch ''42, 77'' True
        [JObj [(''merchandise'', JObj [(''id'', JStr ''gid://shopify/ProductVariant/42'')])],
         JObj [(''quantity'', JNum ''1'')]] = Inr True"
proof -
  have ids: "cartVariantIds [JObj [(''merchandise'', JObj [(''id'', JStr ''gid://shopify/ProductVariant/42'')])],
                   JObj [(''quantity'', JNum ''1'')]]
     = map JStr [''gid://shopify/ProductVariant/42'']"
    by (simp add: cartVariantIds_def cartVariantId_def optGet_def orElse_def)
  have sel: "selectedVariants ''42, 77'' = [''42'', ''77'']"
    by (simp add: selectedVariants_def trim_eval)
  from variant_filter [OF ids, of _ _ "''42, 77''" True] ids show ?thesis
    by (simp add: sel strIncludes_def sublist_code)
qed

section \<open>Visibility: the country filter\<close>

text \<open>
  C3. For every case mapping \<open>toUpperCase\<close> that is the one of ASCII on ASCII strings, as
  the one of JavaScript is: the country filter parses \<^verbatim>\<open>country_selection\<close> into the
  codes that are trimmed, then uppercased, and not empty, where trimming a piece removes
  white space, and nothing else, from its two ends until neither end is white space. The
  filter passes when that list is empty or when no country code is known, and otherwise
  exactly when the uppercased country code is one of the codes: the selection
  \<^verbatim>\<open>"US,CA"\<close> passes for \<^verbatim>\<open>"us"\<close> and fails for \<^verbatim>\<open>"FR"\<close>, also with white space around its
  codes, and the empty selection passes for every country.
\<close>

theorem country_filter:
  assumes ascii: "\<And>s. isAscii s \<Longrightarrow> toUpperCase s = asciiUpperCase s"
  shows "set (selectedCountries toUpperCase countrySelection) =
           {u. \<exists>piece \<in> set (splitOn CHR '','' countrySelection).
                 u = toUpperCase (trim piece) \<and> u \<noteq> []}
       \<and> (\<exists>front rear. set front \<subseteq> set whiteSpace \<and> set rear \<subseteq> set whiteSpace
             \<and> piece = concat front @ trim piece @ concat rear)
       \<and> (\<forall>w \<in> set whiteSpace. \<not> prefix w (trim piece) \<and> \<not> suffix w (trim piece))
       \<and> countryMatch toUpperCase countrySelection code =
           (selectedCountries toUpperCase countrySelection = [] \<or> code = []
            \<or> toUpperCase code \<in> set (selectedCountries toUpperCase countrySelection))
       \<and> countryMatch toUpperCase ''US,CA'' ''us''
       \<and> \<not> countryMatch toUpperCase ''US,CA'' ''FR''
       \<and> countryMatch toUpperCase [] code
       \<and> countryMatch toUpperCase '' us , ca '' ''CA''
       \<and> countryMatch toUpperCase (''US,'' @ [CHR 0xC2, CHR 0xA0] @ ''CA'') ''ca''
       \<and> \<not> countryMatch toUpperCase '' us , ca '' ''FR''"
proof -
  have up: "toUpperCase [] = []" "toUpperCase ''US'' = ''US''" "toUpperCase ''CA'' = ''CA''"
    "toUpperCase ''us'' = ''US''" "toUpperCase ''ca'' = ''CA''" "toUpperCase ''FR'' = ''FR''"
    by (simp_all add: ascii isAscii_def asciiUpperCase_def)
  have empty: "selectedCountries toUpperCase [] = []"
    by (simp add: selectedCountries_def trim_Nil up)
  have a: "countryMatch toUpperCase countrySelection code =
       (selectedCountries toUpperCase countrySelection = [] \<or> code = []
        \<or> toUpperCase code \<in> set (selectedCountries toUpperCase countrySelection))"
    using empty by (auto simp: countryMatch_def)
  have s1: "selectedCountries toUpperCase ''US,CA'' = [''US'', ''CA'']"
    by (simp add: selectedCountries_def trim_eval up)
  have s2: "selectedCountries toUpperCase '' us , ca '' = [''US'', ''CA'']"
    by (simp add: selectedCountries_def trim_eval up)
  have s3: "selectedCountries toUpperCase (''US,'' @ [CHR 0xC2, CHR 0xA0] @ ''CA'')
              = [''US'', ''CA'']"
    by (simp add: selectedCountries_def trim_eval up)
  have b: "countryMatch toUpperCase ''US,CA'' ''us''"
    "\<not> countryMatch toUpperCase ''US,CA'' ''FR''"
    "countryMatch toUpperCase '' us , ca '' ''CA''"
    "countryMatch toUpperCase (''US,'' @ [CHR 0xC2, CHR 0xA0] @ ''CA'') ''ca''"
    "\<not> countryMatch toUpperCase '' us , ca '' ''FR''"
    using s3 by (simp_all add: countryMatch_def s1 s2 up)
  have c: "countryMatch toUpperCase [] code"
    by (simp add: countryMatch_def)
  from a b c set_selectedCountries [of toUpperCase countrySelection]
    trim_decomp [of piece] trim_clean [of _ piece]
  show ?thesis by blast
qed

theorem country_filter_witness:
  "countryMatch asciiUpperCase '' us , ca '' ''CA''
   \<and> \<not> countryMatch asciiUpperCase ''US,CA'' ''FR''
   \<and> set (selectedCountries asciiUpperCase ''us,,Ca '')
       = {u. \<exists>piece \<in> set [''us'', '''', ''Ca ''].
               u = asciiUpperCase (trim piece) \<and> u \<noteq> []}"
proof -
  have "splitOn CHR '','' ''us,,Ca '' = [''us'', '''', ''Ca '']"
    by simp
  with country_filter [of asciiUpperCase "''us,,Ca ''"] show ?thesis
    by simp
qed

section \<open>Rich-text renderer: the fallback label\<close>

text \<open>
  C4. The claim is that every label that renders to nothing gives exactly the default
  label and that no returned sequence holds an empty string. On the empty string the code
  does otherwise: the early return of line 68 hands a string back as the only fragment
  without the test for the empty string that lines 149, 155 and 157 make on the main
  path, so that the result is \<^verbatim>\<open>['']\<close> and not the default label.
\<close>

theorem empty_string_label:
  "parseRichTextLabel (JStr '''') = Inr [JStr '''']
   \<and> parseRichTextLabel (JStr '''') \<noteq> Inr [JStr ''I agree to the terms and conditions'']"
  by (simp add: parseRichTextLabel_def)

theorem empty_string_label_witness:
  "JStr [] \<in> set (case parseRichTextLabel (JStr []) of Inl e \<Rightarrow> [] | Inr frags \<Rightarrow> frags)"
  using empty_string_label by simp

text \<open>
  The main path does what the claim says on the same text: a \<^verbatim>\<open>text\<close> node whose value is
  the empty string gives the default label.
\<close>

lemma empty_text_node_label:
  "parseRichTextLabel (JObj [(''type'', JStr ''text''), (''value'', JStr '''')])
     = Inr [JStr ''I agree to the terms and conditions'']"
  by (simp add: parseRichTextLabel_def convertNode.simps orElse_def defaultLabel_def)

text \<open>
  On every other input the renderer is as the claim says: a label that is \<^verbatim>\<open>undefined\<close>,
  \<^verbatim>\<open>null\<close>, a boolean, a number or an array gives exactly the default label, and so does an
  object that renders to nothing; a string gives that string; and whenever the renderer
  returns on a label other than the empty string, the sequence is not empty and holds no
  \<^verbatim>\<open>null\<close>, no \<^verbatim>\<open>undefined\<close> and no empty string.
\<close>

lemma label_fallback:
  "parseRichTextLabel JUndefined = Inr [JStr ''I agree to the terms and conditions'']
   \<and> parseRichTextLabel JNull = Inr [JStr ''I agree to the terms and conditions'']
   \<and> parseRichTextLabel (JBool b) = Inr [JStr ''I agree to the terms and conditions'']
   \<and> parseRichTextLabel (JNum k) = Inr [JStr ''I agree to the terms and conditions'']
   \<and> parseRichTextLabel (JArr xs) = Inr [JStr ''I agree to the terms and conditions'']
   \<and> parseRichTextLabel (JStr s) = Inr [JStr s]
   \<and> (truthy obj \<and> typeof obj = ''object'' \<and> convertNode obj ''label'' 0 = Inr (result, n)
        \<and> kept result = [] \<longrightarrow>
      parseRichTextLabel obj = Inr [JStr ''I agree to the terms and conditions''])
   \<and> (parseRichTextLabel obj = Inr frags \<and> obj \<noteq> JStr '''' \<longrightarrow>
      frags \<noteq> [] \<and> JNull \<notin> set frags \<and> JUndefined \<notin> set frags \<and> JStr '''' \<notin> set frags)"
proof -
  have prim: "parseRichTextLabel JUndefined = Inr [JStr ''I agree to the terms and conditions'']"
    "parseRichTextLabel JNull = Inr [JStr ''I agree to the terms and conditions'']"
    "parseRichTextLabel (JBool b) = Inr [JStr ''I agree to the terms and conditions'']"
    "parseRichTextLabel (JNum k) = Inr [JStr ''I agree to the terms and conditions'']"
    "parseRichTextLabel (JStr s) = Inr [JStr s]"
    by (simp_all add: parseRichTextLabel_def defaultLabel_def)
  have arr: "parseRichTextLabel (JArr xs) = Inr [JStr ''I agree to the terms and conditions'']"
    by (simp add: parseRichTextLabel_object convertNode.simps kept_def defaultLabel_def)
  have blank: "parseRichTextLabel obj = Inr [JStr ''I agree to the terms and conditions'']"
    if "truthy obj" "typeof obj = ''object''" "convertNode obj ''label'' 0 = Inr (result, n)"
      "kept result = []"
    using that by (simp add: parseRichTextLabel_object defaultLabel_def)
  have clean: "frags \<noteq> [] \<and> JNull \<notin> set frags \<and> JUndefined \<notin> set frags \<and> JStr '''' \<notin> set frags"
    if r: "parseRichTextLabel obj = Inr frags" and ne: "obj \<noteq> JStr ''''"
  proof (cases "truthy obj \<and> typeof obj = ''object''")
    case True
    with r obtain result n where "convertNode obj ''label'' 0 = Inr (result, n)"
      and "frags = (if kept result \<noteq> [] then kept result else [JStr defaultLabel])"
      by (auto simp: parseRichTextLabel_object split: sum.splits prod.splits)
    then show ?thesis
      using kept_clean [of _ result] by (auto simp: defaultLabel_def)
  next
    case False
    with r ne show ?thesis
      by (cases obj) (auto simp: parseRichTextLabel_def defaultLabel_def)
  qed
  from prim arr blank clean show ?thesis by blast
qed

text \<open>
  The renderer does not return on every object: the url of a link node that is neither a
  string nor absent has no method \<^verbatim>\<open>startsWith\<close>.
\<close>

lemma label_raises_on_untyped_url:
  "parseRichTextLabel (JObj [(''type'', JStr ''link''), (''url'', JNum ''5'')]) = Inl TypeError"
  by (simp add: parseRichTextLabel_def convertNode.simps orElse_def urlStartsWithHttp_def)

section \<open>Extension shell: the hidden checkbox\<close>

text \<open>
  C5. With \<^verbatim>\<open>hide_checkbox\<close> set to true, whatever the other settings, the cart, the
  country, the state of the checkbox and the capabilities of the host are: a render shows
  no checkbox and the attempt to progress is allowed. The render returns \<^verbatim>\<open>null\<close> before it
  registers an intercept handler, unless reading a string setting has raised before.
\<close>

theorem hidden_checkbox:
  assumes "settings ''hide_checkbox'' = Some (JBool True)"
  shows "\<not> rendersCheckbox (Extension toUpperCase settings st canUpdateAttributes)
         \<and> attemptProgress (Extension toUpperCase settings st canUpdateAttributes)
             canBlockProgress = Allow
         \<and> (Extension toUpperCase settings st canUpdateAttributes = Inl TypeError
            \<or> Extension toUpperCase settings st canUpdateAttributes
                = Inr \<lparr>element = RenderNull, intercept = None\<rparr>)"
proof -
  have "Extension toUpperCase settings st canUpdateAttributes = Inl TypeError
            \<or> Extension toUpperCase settings st canUpdateAttributes
                = Inr \<lparr>element = RenderNull, intercept = None\<rparr>"
    using assms
    by (cases "getStringSetting settings ''block_error_message''
             ''Please accept the terms to continue''";
        cases "getStringSetting settings ''variant_selection'' ''''")
       (auto simp: Extension_def getBooleanSetting_def setting_def intro: error.exhaust)
  then show ?thesis
    by (auto simp: rendersCheckbox_def attemptProgress_def)
qed

theorem hidden_checkbox_witness:
  "Extension asciiUpperCase [''hide_checkbox'' \<mapsto> JBool True, ''checkbox_required'' \<mapsto> JBool True]
     \<lparr>isChecked = False, showError = False, cartLines = [], countryCode = ''US''\<rparr> True
     = Inr \<lparr>element = RenderNull, intercept = None\<rparr>
   \<and> attemptProgress
       (Extension asciiUpperCase
          [''hide_checkbox'' \<mapsto> JBool True, ''checkbox_required'' \<mapsto> JBool True]
          \<lparr>isChecked = False, showError = False, cartLines = [], countryCode = ''US''\<rparr> True)
       True = Allow"
proof -
  let ?settings = "[''hide_checkbox'' \<mapsto> JBool True, ''checkbox_required'' \<mapsto> JBool True]"
  let ?st = "\<lparr>isChecked = False, showError = False, cartLines = [], countryCode = ''US''\<rparr>"
  have no_raise: "Extension asciiUpperCase ?settings ?st True \<noteq> Inl TypeError"
    by (simp add: Extension_def getStringSetting_def getBooleanSetting_def setting_def
        objectPrototype_def objectPrototypeProperties_def)
  have hide: "?settings ''hide_checkbox'' = Some (JBool True)"
    by simp
  note hidden = hidden_checkbox [where settings = ?settings and st = ?st
        and toUpperCase = asciiUpperCase and canUpdateAttributes = True
        and canBlockProgress = True, OF hide]
  from hidden no_raise show ?thesis by blast
qed

text \<open>
  The same settings without \<^verbatim>\<open>hide_checkbox\<close>: the checkbox is required and not checked, and
  the attempt to progress is blocked.
\<close>

lemma shown_checkbox_blocks:
  "attemptProgress
     (Extension asciiUpperCase [''checkbox_required'' \<mapsto> JBool True]
        \<lparr>isChecked = False, showError = False, cartLines = [], countryCode = ''US''\<rparr> True)
     True = Block"
  by (simp add: attemptProgress_def Extension_def getStringSetting_def getBooleanSetting_def
      setting_def objectPrototype_def objectPrototypeProperties_def shouldShowCheckbox_def
      variantMatch_def countryMatch_def parseRichTextLabel_def interceptHandler_def)

section \<open>Rich-text renderer and plain-text extraction\<close>

text \<open>
  C6, as stated, fails on a document without text: the renderer falls back to the default
  label, whose join is not the empty string that the extraction gives.
\<close>

theorem empty_document_label:
  "parseRichTextLabel (JObj [(''type'', JStr ''root''), (''children'', JArr [])])
     = Inr [JStr ''I agree to the terms and conditions'']
   \<and> extractTextFromRichText (JObj [(''type'', JStr ''root''), (''children'', JArr [])])
     = JStr ''''
   \<and> JStr (join '''' [JStr ''I agree to the terms and conditions''])
     \<noteq> extractTextFromRichText (JObj [(''type'', JStr ''root''), (''children'', JArr [])])"
  by (simp add: parseRichTextLabel_def convertNode.simps extractTextFromRichText_def
      extractFromNode.simps join_def defaultLabel_def)

text \<open>
  C6, amended. For every document whose leaves are all \<^verbatim>\<open>text\<close> nodes under containers, the
  renderer returns, the extraction of the settings accessor is the plain text of the
  document, and the join of the fragments is that plain text when it is not empty, and
  the default label when it is.
\<close>

theorem text_only_label:
  assumes "textOnly d"
  shows "\<exists>frags. parseRichTextLabel (encode d) = Inr frags
           \<and> extractTextFromRichText (encode d) = JStr (plainText d)
           \<and> join [] frags = (if plainText d = [] then defaultLabel else plainText d)"
proof -
  from convertNode_textOnly [OF assms, of "''label''" 0] obtain v
    where v: "convertNode (encode d) ''label'' 0 = Inr (v, 0)"
      and s: "\<forall>x \<in> set (kept v). \<exists>s. x = JStr s"
      and k: "join [] (kept v) = plainText d"
    by blast
  from s kept_clean [of _ v] have "\<forall>x \<in> set (kept v). \<exists>s. x = JStr s \<and> s \<noteq> []"
    by blast
  from join_strings_empty [OF this] k have empty: "plainText d = [] \<Longrightarrow> kept v = []"
    by simp
  have nonempty: "plainText d \<noteq> [] \<Longrightarrow> kept v \<noteq> []"
    using k by (auto simp: join_empty_sep)
  have "parseRichTextLabel (encode d)
          = Inr (if kept v \<noteq> [] then kept v else [JStr defaultLabel])"
    using encode_object [of d] v by (simp add: parseRichTextLabel_object)
  with empty nonempty k extractText_encode [OF textOnly_wellFormed [OF assms]]
  show ?thesis by (auto simp: join_empty_sep)
qed

theorem text_only_label_witness:
  "textOnly (Container ''root'' [Container ''paragraph'' [Text ''I agree to '', Text ''the terms'']])
   \<and> (\<exists>frags.
        parseRichTextLabel
          (encode (Container ''root''
             [Container ''paragraph'' [Text ''I agree to '', Text ''the terms'']])) = Inr frags
        \<and> join [] frags = ''I agree to the terms'')"
proof -
  have t: "textOnly (Container ''root''
             [Container ''paragraph'' [Text ''I agree to '', Text ''the terms'']])"
    by simp
  from text_only_label [OF t] have "\<exists>frags.
        parseRichTextLabel
          (encode (Container ''root''
             [Container ''paragraph'' [Text ''I agree to '', Text ''the terms'']])) = Inr frags
        \<and> join [] frags = ''I agree to the terms''"
    by (simp del: encode.simps, blast)
  with t show ?thesis by blast
qed

section \<open>Settings accessor: reading a string\<close>

text \<open>
  C7, as stated, fails on a boolean or a number stored under the key: the accessor returns
  the value converted to a string (line 45), not the default.
\<close>

theorem getString_boolean_not_default:
  "getStringSetting [''checkbox_label'' \<mapsto> JBool True] ''checkbox_label'' ''fallback''
     = Inr ''true''
   \<and> getStringSetting [''checkbox_label'' \<mapsto> JBool True] ''checkbox_label'' ''fallback''
     \<noteq> Inr ''fallback''"
  by (simp add: getStringSetting_def setting_def)

text \<open>
  C7, amended. \<^verbatim>\<open>getStringSetting\<close> returns, without raising: the default for a key whose
  value is \<^verbatim>\<open>undefined\<close> or \<^verbatim>\<open>null\<close>, and for a key that is not set and is not the name of
  a function that the settings object inherits; for such a name, the function converted
  to a string; the stored value when it is a string; on a rich-text document the
  concatenation of the values of its \<^verbatim>\<open>text\<close> nodes in document order, or the default when
  that text is empty or only white space; and for a boolean or a number its conversion
  to a string.
\<close>

theorem getString_cases:
  "(settings key = Some JUndefined \<or> settings key = Some JNull
      \<or> settings key = None \<and> objectPrototype key = None \<longrightarrow>
      getStringSetting settings key defaultValue = Inr defaultValue)
   \<and> (settings key = None \<and> objectPrototype key = Some (JFun src) \<longrightarrow>
      getStringSetting settings key defaultValue = Inr src)
   \<and> (settings key = None \<and> key = ''__proto__'' \<longrightarrow>
      getStringSetting settings key defaultValue = Inr defaultValue)
   \<and> (settings key = Some (JStr s) \<longrightarrow> getStringSetting settings key defaultValue = Inr s)
   \<and> (settings key = Some (encode doc) \<and> wellFormed doc \<longrightarrow>
      extractTextFromRichText (encode doc) = JStr (plainText doc)
      \<and> getStringSetting settings key defaultValue
          = Inr (if trim (plainText doc) = [] then defaultValue else plainText doc)
      \<and> (trim (plainText doc) = []
           \<longleftrightarrow> (\<exists>blanks. set blanks \<subseteq> set whiteSpace \<and> plainText doc = concat blanks)))
   \<and> (settings key = Some (JBool b) \<longrightarrow>
      getStringSetting settings key defaultValue = Inr (if b then ''true'' else ''false''))
   \<and> (settings key = Some (JNum n) \<longrightarrow> getStringSetting settings key defaultValue = Inr n)"
proof -
  have doc: "getStringSetting settings key defaultValue
          = Inr (if trim (plainText doc) = [] then defaultValue else plainText doc)"
    if "settings key = Some (encode doc)" and "wellFormed doc"
  proof -
    have v: "encode doc \<noteq> JNull" "encode doc \<noteq> JUndefined"
      "typeof (encode doc) \<noteq> ''string''" "typeof (encode doc) = ''object''"
      by (cases doc; simp)+
    show ?thesis
      using trim_Nil by (auto simp: getStringSetting_def setting_def that v extractText_encode)
  qed
  have proto: "getStringSetting settings key defaultValue = Inr defaultValue"
    if "settings key = None" and "key = ''__proto__''"
    using that
    by (simp add: getStringSetting_def setting_def objectPrototype_def
        extractTextFromRichText_def extractFromNode.simps objectPrototypeProperties_def)
  have rest: "(settings key = Some JUndefined \<or> settings key = Some JNull
      \<or> settings key = None \<and> objectPrototype key = None \<longrightarrow>
      getStringSetting settings key defaultValue = Inr defaultValue)"
    "(settings key = None \<and> objectPrototype key = Some (JFun src) \<longrightarrow>
      getStringSetting settings key defaultValue = Inr src)"
    "(settings key = Some (JStr s) \<longrightarrow> getStringSetting settings key defaultValue = Inr s)"
    "(settings key = Some (JBool b) \<longrightarrow>
      getStringSetting settings key defaultValue = Inr (if b then ''true'' else ''false''))"
    "(settings key = Some (JNum n) \<longrightarrow> getStringSetting settings key defaultValue = Inr n)"
    by (auto simp: getStringSetting_def setting_def)
  from doc proto rest extractText_encode [of doc] trim_empty_iff [of "plainText doc"]
  show ?thesis by blast
qed

theorem getString_cases_witness:
  "getStringSetting Map.empty ''block_error_message'' ''Please accept'' = Inr ''Please accept''
   \<and> getStringSetting Map.empty ''toString'' ''Please accept''
        = Inr ''function toString() { [native code] }''
   \<and> getStringSetting [''block_error_message'' \<mapsto> JStr ''Tick the box'']
        ''block_error_message'' ''Please accept'' = Inr ''Tick the box''
   \<and> getStringSetting
        [''block_error_message'' \<mapsto>
           encode (Container ''root'' [Text ''Tick '', Bold [Text ''the box'']])]
        ''block_error_message'' ''Please accept'' = Inr ''Tick the box''
   \<and> getStringSetting
        [''block_error_message'' \<mapsto>
           encode (Container ''root'' [Text [CHR '' '', CHR 0xC2, CHR 0xA0]])]
        ''block_error_message'' ''Please accept'' = Inr ''Please accept''
   \<and> getStringSetting [''block_error_message'' \<mapsto> JNum ''42'']
        ''block_error_message'' ''Please accept'' = Inr ''42''"
proof -
  have p: "objectPrototype ''block_error_message'' = None"
    "objectPrototype ''toString'' = Some (JFun ''function toString() { [native code] }'')"
    by (simp_all add: objectPrototype_def objectPrototypeProperties_def nativeFunction_def)
  have t: "trim ''Tick the box'' = ''Tick the box''" "trim [CHR '' '', CHR 0xC2, CHR 0xA0] = []"
    by (simp_all add: trim_eval)
  show ?thesis
    using p t
    getString_cases [where settings = Map.empty and key = "''block_error_message''"
      and defaultValue = "''Please accept''"]
    getString_cases [where settings = Map.empty and key = "''toString''"
      and defaultValue = "''Please accept''"
      and src = "''function toString() { [native code] }''"]
    getString_cases [where settings = "[''block_error_message'' \<mapsto> JStr ''Tick the box'']"
      and key = "''block_error_message''" and defaultValue = "''Please accept''"
      and s = "''Tick the box''"]
    getString_cases [where settings = "[''block_error_message'' \<mapsto>
           encode (Container ''root'' [Text ''Tick '', Bold [Text ''the box'']])]"
      and key = "''block_error_message''" and defaultValue = "''Please accept''"
      and doc = "Container ''root'' [Text ''Tick '', Bold [Text ''the box'']]"]
    getString_cases [where settings = "[''block_error_message'' \<mapsto>
           encode (Container ''root'' [Text [CHR '' '', CHR 0xC2, CHR 0xA0]])]"
      and key = "''block_error_message''" and defaultValue = "''Please accept''"
      and doc = "Container ''root'' [Text [CHR '' '', CHR 0xC2, CHR 0xA0]]"]
    getString_cases [where settings = "[''block_error_message'' \<mapsto> JNum ''42'']"
      and key = "''block_error_message''" and defaultValue = "''Please accept''"
      and n = "''42''"]
  by simp
qed

text \<open>
  Outside these values the accessor can raise: an object that is itself a \<^verbatim>\<open>text\<close> node
  with a number as its value is extracted to that number, which has no method \<^verbatim>\<open>trim\<close>.
\<close>

lemma getString_raises_on_untyped_text:
  "getStringSetting
     [''variant_selection'' \<mapsto> JObj [(''type'', JStr ''text''), (''value'', JNum ''5'')]]
     ''variant_selection'' '''' = Inl TypeError"
  by (simp add: getStringSetting_def setting_def extractTextFromRichText_def
      extractFromNode.simps orElse_def)

section \<open>Rich-text renderer: link nodes\<close>

text \<open>
  C8, as stated, fails on a link node without a children array: its displayed text is the
  node's own \<^verbatim>\<open>value\<close> (or \<^verbatim>\<open>text\<close>), and the url is used only when both are empty.
\<close>

theorem link_value_before_url:
  "convertNode (JObj [(''type'', JStr ''link''), (''url'', JStr ''https://example.com/terms''),
                      (''value'', JStr ''our terms'')]) ''label'' 0
     = Inr (JElem ''s-link'' ''link-label-0''
              [(''href'', JStr ''https://example.com/terms''), (''target'', JStr ''_blank'')]
              (JStr ''our terms''), 1)
   \<and> convertNode (JObj [(''type'', JStr ''link''), (''url'', JStr ''https://example.com/terms''),
                      (''value'', JStr ''our terms'')]) ''label'' 0
     \<noteq> Inr (linkFragment ''link-label-0'' ''https://example.com/terms'' [], 1)"
  by (simp add: convertNode.simps orElse_def urlStartsWithHttp_def startsWith_def
      showNat.simps linkFragment_def)

text \<open>
  C8, amended. For every \<^verbatim>\<open>link\<close> node whose url is a string or absent, the renderer
  produces the link fragment of the specification: its url is the node's url or \<^verbatim>\<open>"#"\<close>,
  its target is \<^verbatim>\<open>"_blank"\<close> exactly when the url starts with \<^verbatim>\<open>http\<close>, and its displayed text
  falls back to the url and then to \<^verbatim>\<open>"link"\<close>. The link text is the join of the converted
  children that are truthy when the node has a children array; when it has none, it is
  the node's \<^verbatim>\<open>value\<close>, or else its \<^verbatim>\<open>text\<close>.
\<close>

theorem link_fragment:
  assumes "get node ''type'' = JStr ''link''"
    and "optString (get node ''url'') = Some url"
  shows "(get node ''children'' = JArr cs
          \<and> convertChildren cs (p @ ''-link-child-'') 0 n = Inr (rs, m) \<longrightarrow>
            convertNode node p n
              = Inr (linkFragment (''link-'' @ p @ ''-'' @ showNat m) url
                       (join [] (filter truthy rs)), Suc m))
       \<and> (\<not> isArray (get node ''children'')
          \<and> optString (get node ''value'') = Some v \<and> optString (get node ''text'') = Some t \<longrightarrow>
            convertNode node p n
              = Inr (linkFragment (''link-'' @ p @ ''-'' @ showNat n) url
                       (if v \<noteq> [] then v else t), Suc n))"
proof -
  from assms(1) get_defined [of node "''type''"]
  have node: "truthy node" "typeof node = ''object''" by simp_all
  note url = orElse_optString [OF assms(2)] urlStartsWithHttp_optString [OF assms(2)]
  have unfold: "convertNode node p n =
        (case (case get node ''children'' of
                 JArr cs \<Rightarrow>
                   (case convertChildren cs (p @ ''-link-child-'') 0 n of
                      Inl e \<Rightarrow> Inl e
                    | Inr (rs, n) \<Rightarrow> Inr (JStr (join '''' (filter truthy rs)), n))
               | _ \<Rightarrow>
                   Inr (orElse (get node ''value'')
                          (orElse (get node ''text'') (orElse (get node ''url'') (JStr ''''))),
                        n)) of
           Inl e \<Rightarrow> Inl e
         | Inr (linkText, n) \<Rightarrow>
             (case urlStartsWithHttp (get node ''url'') of
                Inl e \<Rightarrow> Inl e
              | Inr isExternal \<Rightarrow>
                  Inr (JElem ''s-link'' (''link-'' @ p @ ''-'' @ showNat n)
                         [(''href'', orElse (get node ''url'') (JStr ''#'')),
                          (''target'', JStr (if isExternal then ''_blank'' else ''_self''))]
                         (orElse linkText (orElse (get node ''url'') (JStr ''link''))),
                       Suc n)))"
    by (subst convertNode.simps) (simp add: node assms(1))
  have a: "convertNode node p n
              = Inr (linkFragment (''link-'' @ p @ ''-'' @ showNat m) url
                       (join [] (filter truthy rs)), Suc m)"
    if "get node ''children'' = JArr cs"
      and "convertChildren cs (p @ ''-link-child-'') 0 n = Inr (rs, m)"
    by (simp add: unfold that url linkFragment_def orElse_JStr)
  have b: "convertNode node p n
              = Inr (linkFragment (''link-'' @ p @ ''-'' @ showNat n) url
                       (if v \<noteq> [] then v else t), Suc n)"
    if c: "\<not> isArray (get node ''children'')"
      and v: "optString (get node ''value'') = Some v"
      and t: "optString (get node ''text'') = Some t"
  proof -
    from c have c': "(case get node ''children'' of JArr cs \<Rightarrow> f cs | _ \<Rightarrow> g) = g" for f g
      by (cases "get node ''children''") simp_all
    show ?thesis
      by (simp add: unfold c' url orElse_optString [OF v] orElse_optString [OF t]
          linkFragment_def orElse_JStr)
  qed
  from a b show ?thesis by blast
qed

theorem link_fragment_witness:
  "convertNode
     (JObj [(''type'', JStr ''link''), (''url'', JStr ''https://example.com/terms''),
            (''children'', JArr [JObj [(''type'', JStr ''text''), (''value'', JStr ''terms'')]])])
     ''label-0'' 3
     = Inr (JElem ''s-link'' ''link-label-0-3''
              [(''href'', JStr ''https://example.com/terms''), (''target'', JStr ''_blank'')]
              (JStr ''terms''), 4)
   \<and> convertNode (JObj [(''type'', JStr ''link''), (''text'', JStr '''')]) ''label-0'' 3
     = Inr (JElem ''s-link'' ''link-label-0-3''
              [(''href'', JStr ''#''), (''target'', JStr ''_self'')] (JStr ''link''), 4)"
proof -
  let ?a = "JObj [(''type'', JStr ''link''), (''url'', JStr ''https://example.com/terms''),
            (''children'', JArr [JObj [(''type'', JStr ''text''), (''value'', JStr ''terms'')]])]"
  let ?b = "JObj [(''type'', JStr ''link''), (''text'', JStr '''')]"
  have ta: "get ?a ''type'' = JStr ''link''" and tb: "get ?b ''type'' = JStr ''link''"
    by simp_all
  have ua: "optString (get ?a ''url'') = Some ''https://example.com/terms''"
    and ub: "optString (get ?b ''url'') = Some []"
    by (simp_all add: optString_def)
  have ca: "convertChildren [JObj [(''type'', JStr ''text''), (''value'', JStr ''terms'')]]
              (''label-0'' @ ''-link-child-'') 0 3 = Inr ([JStr ''terms''], 3)"
    by (simp add: convertNode.simps orElse_def)
  from link_fragment [OF ta ua, where p = "''label-0''" and n = 3 and m = 3
      and cs = "[JObj [(''type'', JStr ''text''), (''value'', JStr ''terms'')]]"
      and rs = "[JStr ''terms'']"] ca
  have 1: "convertNode ?a ''label-0'' 3
     = Inr (JElem ''s-link'' ''link-label-0-3''
              [(''href'', JStr ''https://example.com/terms''), (''target'', JStr ''_blank'')]
              (JStr ''terms''), 4)"
    by (simp add: linkFragment_def startsWith_def join_def showNat.simps)
  from link_fragment [OF tb ub, where p = "''label-0''" and n = 3 and v = "[]" and t = "[]"]
  have 2: "convertNode ?b ''label-0'' 3
     = Inr (JElem ''s-link'' ''link-label-0-3''
              [(''href'', JStr ''#''), (''target'', JStr ''_self'')] (JStr ''link''), 4)"
    by (simp add: linkFragment_def startsWith_def optString_def showNat.simps)
  from 1 2 show ?thesis by blast
qed

section \<open>Visibility: the variant id of a cart line\<close>

text \<open>
  C10. The variant id of a cart line is the first truthy value among \<^verbatim>\<open>merchandise.id\<close>,
  \<^verbatim>\<open>merchandise.variant.id\<close> and \<^verbatim>\<open>variant.id\<close>, tried in this order. A line on which one
  of them is truthy contributes that id at its position; a line on which all three are
  absent or empty contributes no id, and the variant filter gives the same result with
  the line as without it.
\<close>

theorem cart_line_variant_id:
  "cartVariantId line =
     (if truthy (merchandiseId line) then merchandiseId line
      else if truthy (merchandiseVariantId line) then merchandiseVariantId line
      else if truthy (variantId line) then variantId line
      else JStr '''')
   \<and> (if truthy (merchandiseId line) \<or> truthy (merchandiseVariantId line) \<or> truthy (variantId line)
      then cartVariantIds (before @ line # after)
             = cartVariantIds before @ cartVariantId line # cartVariantIds after
      else cartVariantIds (before @ line # after) = cartVariantIds (before @ after)
           \<and> variantMatch variantSelection matchAnyVariant (before @ line # after)
               = variantMatch variantSelection matchAnyVariant (before @ after))"
proof -
  have a: "cartVariantId line =
     (if truthy (merchandiseId line) then merchandiseId line
      else if truthy (merchandiseVariantId line) then merchandiseVariantId line
      else if truthy (variantId line) then variantId line
      else JStr '''')"
    by (simp add: cartVariantId_def merchandiseId_def merchandiseVariantId_def variantId_def
        orElse_def)
  have b: "cartVariantIds (before @ line # after)
             = cartVariantIds before @ cartVariantId line # cartVariantIds after"
    if "truthy (merchandiseId line) \<or> truthy (merchandiseVariantId line) \<or> truthy (variantId line)"
    using that a by (auto simp: cartVariantIds_def)
  have c: "cartVariantIds (before @ line # after) = cartVariantIds (before @ after)"
    if "\<not> (truthy (merchandiseId line) \<or> truthy (merchandiseVariantId line)
          \<or> truthy (variantId line))"
    using that a by (simp add: cartVariantIds_def)
  then have d: "variantMatch variantSelection matchAnyVariant (before @ line # after)
               = variantMatch variantSelection matchAnyVariant (before @ after)"
    if "\<not> (truthy (merchandiseId line) \<or> truthy (merchandiseVariantId line)
          \<or> truthy (variantId line))"
    using that by (simp add: variantMatch_def Let_def)
  from a b c d show ?thesis by presburger
qed

theorem cart_line_variant_id_witness:
  "cartVariantId (JObj [(''merchandise'', JObj [(''id'', JStr ''A''), (''variant'', JObj [(''id'', JStr ''B'')])]),
                       (''variant'', JObj [(''id'', JStr ''C'')])]) = JStr ''A''
   \<and> cartVariantId (JObj [(''merchandise'', JObj [(''id'', JStr ''''), (''variant'', JObj [(''id'', JStr ''B'')])]),
                       (''variant'', JObj [(''id'', JStr ''C'')])]) = JStr ''B''
   \<and> cartVariantId (JObj [(''merchandise'', JNull), (''variant'', JObj [(''id'', JStr ''C'')])])
       = JStr ''C''
   \<and> cartVariantIds ([JObj [(''variant'', JObj [(''id'', JStr ''C'')])]]
         @ JObj [(''merchandise'', JObj [(''title'', JStr ''Shirt'')])] # [JNull])
       = cartVariantIds ([JObj [(''variant'', JObj [(''id'', JStr ''C'')])]] @ [JNull])"
  using
    cart_line_variant_id [of "JObj [(''merchandise'', JObj [(''id'', JStr ''A''), (''variant'', JObj [(''id'', JStr ''B'')])]),
                       (''variant'', JObj [(''id'', JStr ''C'')])]"]
    cart_line_variant_id [of "JObj [(''merchandise'', JObj [(''id'', JStr ''''), (''variant'', JObj [(''id'', JStr ''B'')])]),
                       (''variant'', JObj [(''id'', JStr ''C'')])]"]
    cart_line_variant_id [of "JObj [(''merchandise'', JNull), (''variant'', JObj [(''id'', JStr ''C'')])]"]
    cart_line_variant_id [of "JObj [(''merchandise'', JObj [(''title'', JStr ''Shirt'')])]"
       "[JObj [(''variant'', JObj [(''id'', JStr ''C'')])]]" "[JNull]"]
  by (simp add: merchandiseId_def merchandiseVariantId_def variantId_def optGet_def)

end
